theory Spec2Isabelle
  imports Complex_Main
begin

section \<open>Python values\<close>

text \<open>
  A \<^verbatim>\<open>str\<close> is the list of its code points. The literals of the program are ASCII
  and are written through \<^verbatim>\<open>lit\<close>.
\<close>

type_synonym ustr = "int list"

definition lit :: "string \<Rightarrow> ustr" where
  "lit s = map of_char s"

text \<open>
  An exception object: its class name, its message, and the exception that was being
  handled when it was raised (Python sets \<^verbatim>\<open>__context__\<close> on every raise inside an
  \<^verbatim>\<open>except\<close> block).
\<close>

datatype exn = Exn ustr ustr "exn option"

fun exn_context :: "exn \<Rightarrow> exn option" where
  "exn_context (Exn c m x) = x"

text \<open>The chain \<^verbatim>\<open>e.__context__, e.__context__.__context__, ...\<close>\<close>

fun context_chain :: "exn \<Rightarrow> exn list" where
  "context_chain (Exn c m None) = []"
| "context_chain (Exn c m (Some h)) = h # context_chain h"

definition bnd :: "exn + 'a \<Rightarrow> ('a \<Rightarrow> exn + 'b) \<Rightarrow> exn + 'b" where
  "bnd m f = (case m of Inl e \<Rightarrow> Inl e | Inr x \<Rightarrow> f x)"

text \<open>
  \<^verbatim>\<open>try: m  except Exception: h\<close>. Whatever the handler raises was raised while
  \<^verbatim>\<open>e\<close> was being handled, so \<^verbatim>\<open>e\<close> ends its context chain.
\<close>

fun raised_while_handling :: "exn \<Rightarrow> exn \<Rightarrow> exn" where
  "raised_while_handling (Exn c m None) handled = Exn c m (Some handled)"
| "raised_while_handling (Exn c m (Some x)) handled =
     Exn c m (Some (raised_while_handling x handled))"

definition try_except :: "exn + 'a \<Rightarrow> exn + 'a \<Rightarrow> exn + 'a" where
  "try_except m h =
     (case m of
        Inr x \<Rightarrow> Inr x
      | Inl e \<Rightarrow> (case h of Inr y \<Rightarrow> Inr y | Inl e' \<Rightarrow> Inl (raised_while_handling e' e)))"

text \<open>
  What \<^verbatim>\<open>json.loads\<close> returns. A float is kept by its exact rational value (every
  finite binary64 number is one); the non-standard literals NaN and Infinity are left out.
  A dict is the list of its items in insertion order; a lookup takes the first item with
  the key.
\<close>

datatype json =
    JNull
  | JBool bool
  | JInt int
  | JFloat rat
  | JStr ustr
  | JList "json list"
  | JDict "(ustr \<times> json) list"

fun truthy :: "json \<Rightarrow> bool" where
  "truthy JNull = False"
| "truthy (JBool b) = b"
| "truthy (JInt n) = (n \<noteq> 0)"
| "truthy (JFloat r) = (r \<noteq> 0)"
| "truthy (JStr s) = (s \<noteq> [])"
| "truthy (JList xs) = (xs \<noteq> [])"
| "truthy (JDict kvs) = (kvs \<noteq> [])"

definition py_or :: "json \<Rightarrow> json \<Rightarrow> json" where
  "py_or a b = (if truthy a then a else b)"

text \<open>\<^verbatim>\<open>d.get(k)\<close> on the items of a dict: None when the key is missing.\<close>

definition dget :: "(ustr \<times> json) list \<Rightarrow> ustr \<Rightarrow> json" where
  "dget kvs k = (case map_of kvs k of None \<Rightarrow> JNull | Some v \<Rightarrow> v)"

definition dget_default :: "(ustr \<times> json) list \<Rightarrow> ustr \<Rightarrow> json \<Rightarrow> json" where
  "dget_default kvs k d = (case map_of kvs k of None \<Rightarrow> d | Some v \<Rightarrow> v)"

text \<open>\<^verbatim>\<open>x.get\<close> exists on a dict only.\<close>

fun items_of :: "json \<Rightarrow> exn + (ustr \<times> json) list" where
  "items_of (JDict kvs) = Inr kvs"
| "items_of v = Inl (Exn (lit ''AttributeError'') (lit ''get'') None)"

text \<open>The values of a dict, one per key, in insertion order.\<close>

fun dict_values :: "(ustr \<times> json) list \<Rightarrow> json list" where
  "dict_values [] = []"
| "dict_values ((k, v) # kvs) = v # dict_values (filter (\<lambda>kv. fst kv \<noteq> k) kvs)"

fun values_of :: "json \<Rightarrow> exn + json list" where
  "values_of (JDict kvs) = Inr (dict_values kvs)"
| "values_of v = Inl (Exn (lit ''AttributeError'') (lit ''values'') None)"

text \<open>
  \<^verbatim>\<open>for x in v\<close>: a list gives its elements, a string its characters, a dict its keys;
  nothing else is iterable.
\<close>

fun py_iter :: "json \<Rightarrow> exn + json list" where
  "py_iter (JList xs) = Inr xs"
| "py_iter (JStr s) = Inr (map (\<lambda>c. JStr [c]) s)"
| "py_iter (JDict kvs) = Inr (map JStr (remdups (map fst kvs)))"
| "py_iter v = Inl (Exn (lit ''TypeError'') (lit ''not iterable'') None)"

fun map_exn :: "('a \<Rightarrow> exn + 'b) \<Rightarrow> 'a list \<Rightarrow> exn + 'b list" where
  "map_exn f [] = Inr []"
| "map_exn f (x # xs) = bnd (f x) (\<lambda>y. bnd (map_exn f xs) (\<lambda>ys. Inr (y # ys)))"

subsection \<open>Strings\<close>

text \<open>
  The white space of \<^verbatim>\<open>str.strip\<close>, \<^verbatim>\<open>str.isspace\<close> and of \<^verbatim>\<open>\s\<close> in a \<^verbatim>\<open>str\<close>
  pattern: the ASCII controls 9 to 13 and 28 to 31, the space, U+0085, U+00A0, U+1680,
  U+2000 to U+200A, U+2028, U+2029, U+202F, U+205F and U+3000.
\<close>

definition is_space :: "int \<Rightarrow> bool" where
  "is_space c =
     (c \<in> {9, 10, 11, 12, 13, 28, 29, 30, 31, 32, 133, 160, 5760, 8232, 8233, 8239, 8287, 12288} \<or>
      (8192 \<le> c \<and> c \<le> 8202))"

definition py_strip :: "ustr \<Rightarrow> ustr" where
  "py_strip s = rev (dropWhile is_space (rev (dropWhile is_space s)))"

definition startswith :: "ustr \<Rightarrow> ustr \<Rightarrow> bool" where
  "startswith s p = (take (length p) s = p)"

fun py_join :: "ustr \<Rightarrow> ustr list \<Rightarrow> ustr" where
  "py_join sep [] = []"
| "py_join sep [x] = x"
| "py_join sep (x # y # ys) = x @ sep @ py_join sep (y # ys)"

text \<open>\<^verbatim>\<open>re.sub(r'\s+', ' ', text)\<close>: every maximal run of white space becomes one space.\<close>

function collapse_ws :: "ustr \<Rightarrow> ustr" where
  "collapse_ws [] = []"
| "collapse_ws (c # cs) =
     (if is_space c then 32 # collapse_ws (dropWhile is_space cs)
      else c # collapse_ws cs)"
  by pat_completeness auto
termination
  by (relation "measure length") (auto simp: length_dropWhile_le less_Suc_eq_le)

text \<open>\<^verbatim>\<open>s.replace(old, new)\<close> for a non-empty \<^verbatim>\<open>old\<close>: left to right, without overlap.\<close>

function py_replace :: "ustr \<Rightarrow> ustr \<Rightarrow> ustr \<Rightarrow> ustr" where
  "py_replace old new s =
     (if s = [] \<or> old = [] then s
      else if startswith s old then new @ py_replace old new (drop (length old) s)
      else hd s # py_replace old new (tl s))"
  by pat_completeness auto
termination
  by (relation "measure (\<lambda>(old, new, s). length s)") auto

subsection \<open>\<^verbatim>\<open>str\<close> and \<^verbatim>\<open>int\<close>\<close>

definition digit_char :: "nat \<Rightarrow> int" where
  "digit_char n = 48 + int n"

function str_nat :: "nat \<Rightarrow> ustr" where
  "str_nat n = (if n < 10 then [digit_char n] else str_nat (n div 10) @ [digit_char (n mod 10)])"
  by pat_completeness auto
termination
  by (relation "measure id") auto

definition str_int :: "int \<Rightarrow> ustr" where
  "str_int i = (if i < 0 then 45 # str_nat (nat (- i)) else str_nat (nat i))"

text \<open>
  \<^verbatim>\<open>str(v)\<close>. The text of a float, a list or a dict is the interpreter's \<^verbatim>\<open>repr\<close>,
  taken as a parameter.
\<close>

fun py_str :: "(json \<Rightarrow> ustr) \<Rightarrow> json \<Rightarrow> ustr" where
  "py_str rp JNull = (lit ''None'')"
| "py_str rp (JBool b) = (if b then (lit ''True'') else (lit ''False''))"
| "py_str rp (JInt n) = str_int n"
| "py_str rp (JStr s) = s"
| "py_str rp v = rp v"

text \<open>
  What \<^verbatim>\<open>int\<close> reads in a \<^verbatim>\<open>str\<close>. White space around the number is the ASCII white
  space 9 to 13 and 32 and the white space above U+007F; the controls 28 to 31 are not
  skipped. A digit is an ASCII digit or a character above U+007F with a decimal value in
  the table of the interpreter's Unicode data (\<^verbatim>\<open>unicodedata.decimal\<close>), which is a
  parameter.
\<close>

definition int_space :: "int \<Rightarrow> bool" where
  "int_space c = (c \<in> {9, 10, 11, 12, 13, 32} \<or> (128 \<le> c \<and> is_space c))"

definition int_strip :: "ustr \<Rightarrow> ustr" where
  "int_strip s = rev (dropWhile int_space (rev (dropWhile int_space s)))"

definition decimal :: "(int \<Rightarrow> nat option) \<Rightarrow> int \<Rightarrow> nat option" where
  "decimal tbl c =
     (if 48 \<le> c \<and> c \<le> 57 then Some (nat (c - 48)) else if c < 128 then None else tbl c)"

text \<open>Decimal digits, single underscores allowed between two digits.\<close>

fun digits_val :: "(int \<Rightarrow> nat option) \<Rightarrow> nat \<Rightarrow> ustr \<Rightarrow> nat option" where
  "digits_val tbl acc [] = Some acc"
| "digits_val tbl acc [c] =
     (case decimal tbl c of Some v \<Rightarrow> Some (10 * acc + v) | None \<Rightarrow> None)"
| "digits_val tbl acc (c # d # ds) =
     (case decimal tbl c of
        Some v \<Rightarrow> digits_val tbl (10 * acc + v) (d # ds)
      | None \<Rightarrow>
          if c = 95 then
            (case decimal tbl d of
               Some v \<Rightarrow> digits_val tbl (10 * acc + v) ds
             | None \<Rightarrow> None)
          else None)"

definition nat_literal :: "(int \<Rightarrow> nat option) \<Rightarrow> ustr \<Rightarrow> nat option" where
  "nat_literal tbl s =
     (case s of
        [] \<Rightarrow> None
      | c # cs \<Rightarrow> (case decimal tbl c of Some v \<Rightarrow> digits_val tbl v cs | None \<Rightarrow> None))"

section \<open>The libraries the program calls\<close>

text \<open>
  The tree \<^verbatim>\<open>BeautifulSoup(s, 'html.parser')\<close> builds: the strings \<^verbatim>\<open>get_text\<close>
  yields, and tags with their name, attributes and children.
\<close>

datatype node = NavigableString ustr | Tag ustr "(ustr \<times> ustr) list" "node list"

type_synonym bytes = "nat list"

text \<open>What \<^verbatim>\<open>requests.get\<close> returns.\<close>

record response =
  raise_for_status :: "exn option"
  resp_content :: bytes
  resp_text :: ustr
  resp_json :: "exn + json"

text \<open>
  The modules and the configuration the program uses, as parameters: the HTML parser, the
  JSON parser, \<^verbatim>\<open>html.unescape\<close>, \<^verbatim>\<open>repr\<close>, the decimal value of a character above
  U+007F (\<^verbatim>\<open>unicodedata.decimal\<close>), the limit \<^verbatim>\<open>sys.get_int_max_str_digits()\<close> (0 for
  none), \<^verbatim>\<open>urllib.parse.urljoin\<close>, which raises on some references, whether
  \<^verbatim>\<open>requests\<close> and \<^verbatim>\<open>docx\<close> were imported, \<^verbatim>\<open>requests.get(url, timeout)\<close>, the
  exception \<^verbatim>\<open>add_run\<close> raises on the given text (if any) and the one \<^verbatim>\<open>doc.add_picture\<close>
  raises on the given bytes (if any), the module variable \<^verbatim>\<open>INPUT_FILE\<close> and the content
  of a file (None when it does not exist).
\<close>

record env =
  BeautifulSoup :: "json \<Rightarrow> exn + node list"
  json_loads :: "ustr \<Rightarrow> exn + json"
  html_unescape :: "ustr \<Rightarrow> ustr"
  repr :: "json \<Rightarrow> ustr"
  unicode_decimal :: "int \<Rightarrow> nat option"
  int_max_str_digits :: int
  urljoin :: "ustr \<Rightarrow> ustr \<Rightarrow> exn + ustr"
  requests :: bool
  requests_get :: "ustr \<Rightarrow> nat \<Rightarrow> exn + response"
  Document :: bool
  add_run :: "ustr \<Rightarrow> exn option"
  add_picture :: "bytes \<Rightarrow> exn option"
  INPUT_FILE :: "ustr option"
  read_file :: "ustr \<Rightarrow> ustr option"

subsection \<open>\<^verbatim>\<open>int\<close>\<close>

text \<open>
  \<^verbatim>\<open>int(s)\<close> for a \<^verbatim>\<open>str\<close>: white space around, a sign, digits with single underscores
  between them. More digits than the limit is a \<^verbatim>\<open>ValueError\<close> too (the limit is looked
  at above 640 digits only).
\<close>

definition int_of_str :: "env \<Rightarrow> ustr \<Rightarrow> exn + int" where
  "int_of_str L s =
     (let t = int_strip s;
          neg = startswith t (lit ''-'');
          body = (if startswith t (lit ''-'') \<or> startswith t (lit ''+'') then tl t else t);
          digits = int (length (filter (\<lambda>c. c \<noteq> 95) body))
      in case nat_literal (unicode_decimal L) body of
           None \<Rightarrow>
             Inl (Exn (lit ''ValueError'') (lit ''invalid literal for int() with base 10'') None)
         | Some n \<Rightarrow>
             if 640 < digits \<and> 0 < int_max_str_digits L \<and> int_max_str_digits L < digits then
               Inl (Exn (lit ''ValueError'')
                      (lit ''Exceeds the limit for integer string conversion'') None)
             else Inr (if neg then - int n else int n))"

text \<open>\<^verbatim>\<open>int(v)\<close>: a float is truncated towards zero, a bool is 0 or 1.\<close>

fun py_int :: "env \<Rightarrow> json \<Rightarrow> exn + int" where
  "py_int L (JInt n) = Inr n"
| "py_int L (JBool b) = Inr (if b then 1 else 0)"
| "py_int L (JFloat r) = Inr (if r < 0 then - \<lfloor>- r\<rfloor> else \<lfloor>r\<rfloor>)"
| "py_int L (JStr s) = int_of_str L s"
| "py_int L v = Inl (Exn (lit ''TypeError'') (lit ''int() argument'') None)"

section \<open>Payload recovery\<close>

definition to_lower :: "int \<Rightarrow> int" where
  "to_lower c = (if 65 \<le> c \<and> c \<le> 90 then c + 32 else c)"

definition istartswith :: "ustr \<Rightarrow> ustr \<Rightarrow> bool" where
  "istartswith s p = (map to_lower (take (length p) s) = p)"

text \<open>
  \<^verbatim>\<open>re.search(r'<body[^>]*>(.*)</body>', s, re.DOTALL | re.IGNORECASE)\<close>, group 1.
  After the opening tag the greedy \<^verbatim>\<open>(.*)\<close> runs to the last \<^verbatim>\<open></body>\<close>.
\<close>

fun upto_last_close :: "ustr \<Rightarrow> ustr option" where
  "upto_last_close [] = None"
| "upto_last_close (c # cs) =
     (case upto_last_close cs of
        Some r \<Rightarrow> Some (c # r)
      | None \<Rightarrow> if istartswith (c # cs) (lit ''</body>'') then Some [] else None)"

definition after_gt :: "ustr \<Rightarrow> ustr option" where
  "after_gt s = (case dropWhile (\<lambda>c. c \<noteq> 62) s of [] \<Rightarrow> None | g # rest \<Rightarrow> Some rest)"

definition match_here :: "ustr \<Rightarrow> ustr option" where
  "match_here s =
     (if istartswith s (lit ''<body'') then
        (case after_gt (drop 5 s) of None \<Rightarrow> None | Some rest \<Rightarrow> upto_last_close rest)
      else None)"

fun body_search :: "ustr \<Rightarrow> ustr option" where
  "body_search [] = None"
| "body_search (c # cs) =
     (case match_here (c # cs) of Some g \<Rightarrow> Some g | None \<Rightarrow> body_search cs)"

definition extract_json_from_html_wrapper :: "env \<Rightarrow> ustr \<Rightarrow> exn + json" where
  "extract_json_from_html_wrapper L html_content =
     (let inner = py_strip (case body_search html_content of
                              Some g \<Rightarrow> g
                            | None \<Rightarrow> html_content);
          inner = html_unescape L inner
      in try_except (json_loads L inner)
           (json_loads L (py_replace [92, 34] [34] inner)))"

definition fetch_json_from_url :: "env \<Rightarrow> ustr \<Rightarrow> exn + json" where
  "fetch_json_from_url L url =
     (if url = [] then Inl (Exn (lit ''ValueError'') (lit ''URL is required'') None)
      else if \<not> requests L then Inl (Exn (lit ''RuntimeError'') (lit ''requests module is required'') None)
      else bnd (requests_get L url 300) (\<lambda>resp.
             case raise_for_status resp of
               Some e \<Rightarrow> Inl e
             | None \<Rightarrow>
                 try_except (resp_json resp)
                   (extract_json_from_html_wrapper L (resp_text resp))))"

definition QUESTION_API_PATTERN :: "ustr \<Rightarrow> ustr" where
  "QUESTION_API_PATTERN series_id =
     (lit ''https://www.testranking.in/admin/api/questions-solutions-new/'') @ series_id @ (lit ''/en'')"

definition fetch_raw_json :: "env \<Rightarrow> ustr option \<Rightarrow> exn + json" where
  "fetch_raw_json L series_id =
     (if INPUT_FILE L \<noteq> None \<and> INPUT_FILE L \<noteq> Some [] then
        (case read_file L (the (INPUT_FILE L)) of
           None \<Rightarrow> Inl (Exn (lit ''FileNotFoundError'') (lit ''Input file not found: '' @ the (INPUT_FILE L)) None)
         | Some content \<Rightarrow>
             try_except (json_loads L content) (extract_json_from_html_wrapper L content))
      else
        (case series_id of
           None \<Rightarrow> Inl (Exn (lit ''ValueError'') (lit ''series_id is required when not using INPUT_FILE'') None)
         | Some sid \<Rightarrow>
             if sid = [] then
               Inl (Exn (lit ''ValueError'') (lit ''series_id is required when not using INPUT_FILE'') None)
             else fetch_json_from_url L (QUESTION_API_PATTERN sid)))"

text \<open>
  The text the second attempt parses and the text the third attempt parses, as
  \<^verbatim>\<open>extract_json_from_html_wrapper\<close> computes them, and the class and message of an
  exception.
\<close>

definition body_inner :: "env \<Rightarrow> ustr \<Rightarrow> ustr" where
  "body_inner L content =
     html_unescape L (py_strip (case body_search content of Some g \<Rightarrow> g | None \<Rightarrow> content))"

definition unescaped_quotes :: "ustr \<Rightarrow> ustr" where
  "unescaped_quotes inner = py_replace [92, 34] [34] inner"

fun exn_class :: "exn \<Rightarrow> ustr" where
  "exn_class (Exn c m x) = c"

fun exn_message :: "exn \<Rightarrow> ustr" where
  "exn_message (Exn c m x) = m"

section \<open>Field extractor\<close>

fun all_strings :: "node \<Rightarrow> ustr list" where
  "all_strings (NavigableString s) = [s]"
| "all_strings (Tag n attrs cs) = concat (map all_strings cs)"

text \<open>\<^verbatim>\<open>soup.get_text(separator=' ', strip=True)\<close>\<close>

definition get_text :: "node list \<Rightarrow> ustr" where
  "get_text soup =
     py_join (lit '' '') (filter (\<lambda>s. s \<noteq> []) (map py_strip (concat (map all_strings soup))))"

fun find_all :: "ustr \<Rightarrow> node \<Rightarrow> node list" where
  "find_all nm (NavigableString s) = []"
| "find_all nm (Tag n attrs cs) =
     (if n = nm then [Tag n attrs cs] else []) @ concat (map (find_all nm) cs)"

text \<open>\<^verbatim>\<open>src = img.get('src'); if src: images.append(src)\<close>\<close>

fun img_src :: "node \<Rightarrow> ustr list" where
  "img_src (NavigableString s) = []"
| "img_src (Tag n attrs cs) =
     (case map_of attrs (lit ''src'') of None \<Rightarrow> [] | Some src \<Rightarrow> if src \<noteq> [] then [src] else [])"

text \<open>The \<^verbatim>\<open>src\<close> values of the \<^verbatim>\<open>img\<close> tags of a tree, read off in document order.\<close>

fun img_srcs_in_order :: "node \<Rightarrow> ustr list" where
  "img_srcs_in_order (NavigableString s) = []"
| "img_srcs_in_order (Tag n attrs cs) =
     (if n = (lit ''img'') then
        (case map_of attrs (lit ''src'') of None \<Rightarrow> [] | Some src \<Rightarrow> if src \<noteq> [] then [src] else [])
      else []) @ concat (map img_srcs_in_order cs)"

definition parse_html_field :: "env \<Rightarrow> json \<Rightarrow> exn + (ustr \<times> ustr list)" where
  "parse_html_field L s =
     (if \<not> truthy s then Inr ([], [])
      else bnd (BeautifulSoup L s) (\<lambda>soup.
             Inr (py_strip (collapse_ws (get_text soup)),
                  concat (map img_src (concat (map (find_all (lit ''img'')) soup))))))"

subsection \<open>What the text is to be\<close>

text \<open>
  The words of a text, as \<^verbatim>\<open>str.split()\<close> gives them: the maximal runs of characters that
  are not white space.
\<close>

fun ws_words :: "ustr \<Rightarrow> ustr list" where
  "ws_words [] = []"
| "ws_words (c # cs) =
     (if is_space c then ws_words cs
      else if cs = [] \<or> is_space (hd cs) then [c] # ws_words cs
      else (case ws_words cs of [] \<Rightarrow> [[c]] | w # ws \<Rightarrow> (c # w) # ws))"

section \<open>Record normalizer\<close>

text \<open>An option is the dict \<^verbatim>\<open>{'text': ..., 'images': ...}\<close>; an entry is the dict built at
  the end of the loop body of \<^verbatim>\<open>process_data\<close>.\<close>

record option_rec =
  opt_text :: ustr
  opt_images :: "ustr list"

record entry =
  qid :: json
  section_id :: json
  section_name :: json
  topic_id :: json
  question_text :: ustr
  question_images :: "ustr list"
  options :: "option_rec list"
  answer_index :: "int option"
  answer_text :: ustr
  solution_text :: ustr
  solution_images :: "ustr list"

definition labels :: "ustr list" where
  "labels = [lit ''a'', lit ''b'', lit ''c'', lit ''d'', lit ''e'']"

text \<open>The loop \<^verbatim>\<open>for i in range(1, 6)\<close>, with the list \<^verbatim>\<open>options\<close> as its state.\<close>

fun option_loop ::
  "env \<Rightarrow> ustr \<Rightarrow> (ustr \<times> json) list \<Rightarrow> nat list \<Rightarrow> option_rec list \<Rightarrow> exn + option_rec list"
where
  "option_loop L lang q [] opts = Inr opts"
| "option_loop L lang q (i # is) opts =
     (let opt_html = dget q (lit ''option_'' @ lang @ lit ''_'' @ str_nat i) in
      if truthy opt_html then
        bnd (parse_html_field L opt_html) (\<lambda>(opt_text, opt_images).
          if opt_text \<noteq> [] \<or> opt_images \<noteq> [] then
            option_loop L lang q is (opts @ [\<lparr>opt_text = opt_text, opt_images = opt_images\<rparr>])
          else option_loop L lang q is opts)
      else option_loop L lang q is opts)"

definition answer_fallback ::
  "env \<Rightarrow> ustr \<Rightarrow> (ustr \<times> json) list \<Rightarrow> json \<Rightarrow> exn + (int option \<times> ustr)"
where
  "answer_fallback L lang q ar =
     (let ahtml = py_or (dget q (lit ''answer_'' @ lang)) ar in
      bnd (parse_html_field L ahtml) (\<lambda>(ans_text, imgs). Inr (None, ans_text)))"

definition resolve_answer ::
  "env \<Rightarrow> ustr \<Rightarrow> (ustr \<times> json) list \<Rightarrow> option_rec list \<Rightarrow> exn + (int option \<times> ustr)"
where
  "resolve_answer L lang q opts =
     (let ar = dget q (lit ''answer_en'') in
      if truthy ar then
        try_except
          (bnd (py_int L ar) (\<lambda>i0.
             if 1 \<le> i0 \<and> i0 \<le> int (length opts) then
               (let ans_idx = i0 - 1 in
                Inr (Some ans_idx,
                     if ans_idx < int (length labels) then labels ! nat ans_idx else str_int i0))
             else answer_fallback L lang q ar))
          (answer_fallback L lang q ar)
      else Inr (None, []))"

definition process_question :: "env \<Rightarrow> ustr \<Rightarrow> json \<Rightarrow> json \<Rightarrow> json \<Rightarrow> exn + entry" where
  "process_question L lang sec_id sec_name qv =
     bnd (items_of qv) (\<lambda>q.
     bnd (parse_html_field L (py_or (dget q (lit ''question_'' @ lang)) (JStr []))) (\<lambda>(qt, qi).
     bnd (option_loop L lang q [1..<6] []) (\<lambda>opts.
     bnd (resolve_answer L lang q opts) (\<lambda>(ans_idx, ans_text).
     bnd (parse_html_field L (py_or (dget q (lit ''solution_'' @ lang)) (JStr []))) (\<lambda>(st, si).
       Inr \<lparr>qid = dget q (lit ''qid''),
            section_id = sec_id,
            section_name = sec_name,
            topic_id = dget q (lit ''topic_id''),
            question_text = qt,
            question_images = qi,
            options = opts,
            answer_index = ans_idx,
            answer_text = ans_text,
            solution_text = st,
            solution_images = si\<rparr>)))))"

definition process_section :: "env \<Rightarrow> ustr \<Rightarrow> json \<Rightarrow> exn + entry list" where
  "process_section L lang section_entry =
     bnd (items_of section_entry) (\<lambda>se.
       let sec_id = py_or (dget se (lit ''section_id'')) (dget se (lit ''sec_id''));
           sec_name = py_or (py_or (dget se (lit ''section_name'')) (dget se (lit ''sec_name'')))
                        (JStr (py_str (repr L) sec_id))
       in bnd (values_of (dget_default se (lit ''all_questions'') (JDict []))) (\<lambda>q_lists.
          bnd (map_exn (\<lambda>q_list.
                 bnd (py_iter q_list) (map_exn (process_question L lang sec_id sec_name)))
               q_lists) (\<lambda>ess. Inr (concat ess))))"

definition process_data :: "env \<Rightarrow> json \<Rightarrow> ustr \<Rightarrow> exn + entry list" where
  "process_data L raw_json lang =
     bnd (items_of raw_json) (\<lambda>top.
     bnd (py_iter (dget_default top (lit ''data'') (JList []))) (\<lambda>section_entries.
     bnd (map_exn (process_section L lang) section_entries) (\<lambda>ess. Inr (concat ess))))"

section \<open>Section grouper\<close>

record section_group =
  name :: json
  questions :: "entry list"

text \<open>
  Keys of a Python dict are compared by \<^verbatim>\<open>==\<close>: \<^verbatim>\<open>True\<close>, \<^verbatim>\<open>1\<close> and \<^verbatim>\<open>1.0\<close>
  are one key. A list or a dict cannot be a key.
\<close>

fun nkey :: "json \<Rightarrow> json" where
  "nkey (JBool b) = JInt (if b then 1 else 0)"
| "nkey (JFloat r) = (if r = of_int \<lfloor>r\<rfloor> then JInt \<lfloor>r\<rfloor> else JFloat r)"
| "nkey v = v"

definition key_eq :: "json \<Rightarrow> json \<Rightarrow> bool" where
  "key_eq a b = (nkey a = nkey b)"

fun hashable :: "json \<Rightarrow> bool" where
  "hashable (JList xs) = False"
| "hashable (JDict kvs) = False"
| "hashable v = True"

definition has_key :: "(json \<times> section_group) list \<Rightarrow> json \<Rightarrow> bool" where
  "has_key sections sid = list_ex (\<lambda>kv. key_eq (fst kv) sid) sections"

text \<open>\<^verbatim>\<open>sections[sid]['questions'].append(entry)\<close>\<close>

definition append_question ::
  "(json \<times> section_group) list \<Rightarrow> json \<Rightarrow> entry \<Rightarrow> (json \<times> section_group) list"
where
  "append_question sections sid e =
     map (\<lambda>(k, g). if key_eq k sid then (k, g\<lparr>questions := questions g @ [e]\<rparr>) else (k, g))
       sections"

definition entry_sid :: "entry \<Rightarrow> json" where
  "entry_sid e = py_or (section_id e) (JStr [])"

definition entry_sname :: "env \<Rightarrow> entry \<Rightarrow> json" where
  "entry_sname L e = py_or (section_name e) (JStr (py_str (repr L) (entry_sid e)))"

fun group_loop ::
  "env \<Rightarrow> entry list \<Rightarrow> (json \<times> section_group) list \<Rightarrow> exn + (json \<times> section_group) list"
where
  "group_loop L [] sections = Inr sections"
| "group_loop L (e # es) sections =
     (let sid = entry_sid e; sname = entry_sname L e in
      if \<not> hashable sid then Inl (Exn (lit ''TypeError'') (lit ''unhashable type'') None)
      else group_loop L es
             (append_question
                (if \<not> has_key sections sid
                 then sections @ [(sid, \<lparr>name = sname, questions = []\<rparr>)]
                 else sections)
                sid e))"

definition group_by_section :: "env \<Rightarrow> entry list \<Rightarrow> exn + (json \<times> section_group) list" where
  "group_by_section L cleaned = group_loop L cleaned []"

subsection \<open>What the groups are to be\<close>

text \<open>
  The keys in the order first seen, one for each class of equal keys; the records of a
  key, in their order; and the group of a key, named after its first record.
\<close>

fun first_seen :: "json list \<Rightarrow> json list" where
  "first_seen [] = []"
| "first_seen (k # ks) = k # first_seen (filter (\<lambda>k'. \<not> key_eq k' k) ks)"

definition members :: "json \<Rightarrow> entry list \<Rightarrow> entry list" where
  "members k es = filter (\<lambda>e. key_eq (entry_sid e) k) es"

definition group_of :: "env \<Rightarrow> entry list \<Rightarrow> json \<Rightarrow> json \<times> section_group" where
  "group_of L es k = (k, \<lparr>name = entry_sname L (hd (members k es)), questions = members k es\<rparr>)"

definition groups_of :: "env \<Rightarrow> entry list \<Rightarrow> (json \<times> section_group) list" where
  "groups_of L es = map (group_of L es) (first_seen (map entry_sid es))"

section \<open>Document assembler\<close>

text \<open>The body of the document: paragraphs of one run, pictures with their width in inches,
  page breaks, in the order added.\<close>

datatype block = Paragraph ustr | Picture bytes nat | PageBreak

definition image_request_url :: "env \<Rightarrow> ustr \<Rightarrow> ustr option \<Rightarrow> exn + ustr" where
  "image_request_url L img_url base_url =
     (if startswith img_url (lit ''//'') then Inr (lit ''https:'' @ img_url)
      else if startswith img_url (lit ''/'') \<and> base_url \<noteq> None \<and> base_url \<noteq> Some [] then
        urljoin L (the base_url) img_url
      else Inr img_url)"

text \<open>
  The address is worked out before the \<^verbatim>\<open>try\<close>: what \<^verbatim>\<open>urljoin\<close> raises leaves
  \<^verbatim>\<open>fetch_image_bytes\<close>. What the request raises is caught and gives None.
\<close>

definition fetch_image_bytes :: "env \<Rightarrow> ustr \<Rightarrow> ustr option \<Rightarrow> exn + bytes option" where
  "fetch_image_bytes L img_url base_url =
     (if img_url = [] then Inr None
      else bnd (image_request_url L img_url base_url) (\<lambda>url.
             if \<not> requests L then Inr None
             else (case requests_get L url 15 of
                     Inl e \<Rightarrow> Inr None
                   | Inr resp \<Rightarrow>
                       (case raise_for_status resp of
                          Some e \<Rightarrow> Inr None
                        | None \<Rightarrow> Inr (Some (resp_content resp))))))"

text \<open>The three loops \<^verbatim>\<open>for img_url in ...\<close>, with the document as their state.\<close>

fun add_images :: "env \<Rightarrow> ustr option \<Rightarrow> ustr list \<Rightarrow> block list \<Rightarrow> exn + block list" where
  "add_images L base_url [] doc = Inr doc"
| "add_images L base_url (img_url # rest) doc =
     bnd (fetch_image_bytes L img_url base_url) (\<lambda>fetched_data.
       case fetched_data of
         None \<Rightarrow> add_images L base_url rest doc
       | Some img_data \<Rightarrow>
           if img_data = [] then add_images L base_url rest doc
           else (case add_picture L img_data of
                   Some e \<Rightarrow> Inl e
                 | None \<Rightarrow> add_images L base_url rest (doc @ [Picture img_data 4])))"

text \<open>\<^verbatim>\<open>p = doc.add_paragraph(); p.add_run(t)\<close>\<close>

definition add_text :: "env \<Rightarrow> ustr \<Rightarrow> block list \<Rightarrow> exn + block list" where
  "add_text L t doc = (case add_run L t of Some e \<Rightarrow> Inl e | None \<Rightarrow> Inr (doc @ [Paragraph t]))"

definition option_label :: "nat \<Rightarrow> ustr" where
  "option_label idx = (if idx < length labels then labels ! idx else str_int (int idx + 1))"

fun add_options ::
  "env \<Rightarrow> ustr option \<Rightarrow> nat \<Rightarrow> option_rec list \<Rightarrow> block list \<Rightarrow> exn + block list"
where
  "add_options L base_url idx [] doc = Inr doc"
| "add_options L base_url idx (opt # rest) doc =
     bnd (add_text L (lit ''('' @ option_label idx @ lit '') '' @ opt_text opt) doc) (\<lambda>doc.
     bnd (add_images L base_url (opt_images opt) doc) (add_options L base_url (Suc idx) rest))"

definition add_entry :: "env \<Rightarrow> ustr option \<Rightarrow> entry \<Rightarrow> block list \<Rightarrow> exn + block list" where
  "add_entry L base_url e doc =
     bnd (add_text L (lit ''[Q] '' @ question_text e) doc) (\<lambda>doc.
     bnd (add_images L base_url (question_images e) doc) (\<lambda>doc.
     bnd (add_options L base_url 0 (options e) doc) (\<lambda>doc.
     bnd (add_text L (lit ''[ANS] '' @ answer_text e) doc) (\<lambda>doc.
     bnd (add_text L (lit ''[SOL] '' @ solution_text e) doc) (\<lambda>doc.
     bnd (add_images L base_url (solution_images e) doc) (\<lambda>doc.
       Inr (doc @ [PageBreak])))))))"

fun add_entries :: "env \<Rightarrow> ustr option \<Rightarrow> entry list \<Rightarrow> block list \<Rightarrow> exn + block list" where
  "add_entries L base_url [] doc = Inr doc"
| "add_entries L base_url (e # es) doc = bnd (add_entry L base_url e doc) (add_entries L base_url es)"

definition create_docx :: "env \<Rightarrow> entry list \<Rightarrow> ustr option \<Rightarrow> exn + block list" where
  "create_docx L cleaned_entries base_url =
     (if \<not> Document L then
        Inl (Exn (lit ''RuntimeError'') (lit ''python-docx is required. Install with pip install python-docx'') None)
      else add_entries L base_url cleaned_entries [])"

subsection \<open>What the document is to hold\<close>

text \<open>
  The pictures of a list of image references: one for each reference whose fetch gave
  bytes, in order, four inches wide.
\<close>

definition fetched :: "env \<Rightarrow> ustr option \<Rightarrow> ustr list \<Rightarrow> bytes list" where
  "fetched L base_url imgs =
     filter (\<lambda>d. d \<noteq> [])
       (List.map_filter
          (\<lambda>img_url. case fetch_image_bytes L img_url base_url of
                        Inl e \<Rightarrow> None
                      | Inr fetched_data \<Rightarrow> fetched_data)
          imgs)"

definition pictures :: "env \<Rightarrow> ustr option \<Rightarrow> ustr list \<Rightarrow> block list" where
  "pictures L base_url imgs = map (\<lambda>d. Picture d 4) (fetched L base_url imgs)"

text \<open>
  The blocks of one record: the question, the options lettered by position, the answer,
  the solution, each with its pictures, and a page break.
\<close>

definition option_block :: "env \<Rightarrow> ustr option \<Rightarrow> nat \<times> option_rec \<Rightarrow> block list" where
  "option_block L base_url ko =
     Paragraph (lit ''('' @ labels ! fst ko @ lit '') '' @ opt_text (snd ko)) #
     pictures L base_url (opt_images (snd ko))"

definition entry_blocks :: "env \<Rightarrow> ustr option \<Rightarrow> entry \<Rightarrow> block list" where
  "entry_blocks L base_url e =
     Paragraph (lit ''[Q] '' @ question_text e) # pictures L base_url (question_images e) @
     concat (map (option_block L base_url) (enumerate 0 (options e))) @
     [Paragraph (lit ''[ANS] '' @ answer_text e), Paragraph (lit ''[SOL] '' @ solution_text e)] @
     pictures L base_url (solution_images e) @ [PageBreak]"

text \<open>The same with the label the source computes for a position.\<close>

definition added_blocks :: "env \<Rightarrow> ustr option \<Rightarrow> entry \<Rightarrow> block list" where
  "added_blocks L base_url e =
     Paragraph (lit ''[Q] '' @ question_text e) # pictures L base_url (question_images e) @
     concat (map (\<lambda>ko. Paragraph (lit ''('' @ option_label (fst ko) @ lit '') '' @ opt_text (snd ko)) #
                        pictures L base_url (opt_images (snd ko)))
               (enumerate 0 (options e))) @
     [Paragraph (lit ''[ANS] '' @ answer_text e), Paragraph (lit ''[SOL] '' @ solution_text e)] @
     pictures L base_url (solution_images e) @ [PageBreak]"

text \<open>The texts and the pictures of a document, and those of a record.\<close>

fun paragraphs :: "block list \<Rightarrow> ustr list" where
  "paragraphs [] = []"
| "paragraphs (Paragraph s # bs) = s # paragraphs bs"
| "paragraphs (b # bs) = paragraphs bs"

fun picture_data :: "block list \<Rightarrow> bytes list" where
  "picture_data [] = []"
| "picture_data (Picture d w # bs) = d # picture_data bs"
| "picture_data (b # bs) = picture_data bs"

definition entry_texts :: "entry \<Rightarrow> ustr list" where
  "entry_texts e =
     (lit ''[Q] '' @ question_text e) #
     map (\<lambda>ko. (lit ''('') @ option_label (fst ko) @ lit '') '' @ opt_text (snd ko)) (enumerate 0 (options e)) @
     [lit ''[ANS] '' @ answer_text e, lit ''[SOL] '' @ solution_text e]"

definition entry_images :: "entry \<Rightarrow> ustr list" where
  "entry_images e =
     question_images e @ concat (map opt_images (options e)) @ solution_images e"

text \<open>
  An image reference is in order when its address can be worked out and the writer takes
  what the fetch gave, if it gave anything. A record can be written when the writer takes
  its texts and its image references are in order.
\<close>

definition image_ok :: "env \<Rightarrow> ustr option \<Rightarrow> ustr \<Rightarrow> bool" where
  "image_ok L base_url img_url =
     (case fetch_image_bytes L img_url base_url of
        Inl e \<Rightarrow> False
      | Inr None \<Rightarrow> True
      | Inr (Some img_data) \<Rightarrow> img_data = [] \<or> add_picture L img_data = None)"

definition writable :: "env \<Rightarrow> ustr option \<Rightarrow> entry \<Rightarrow> bool" where
  "writable L base_url e =
     (list_all (\<lambda>t. add_run L t = None) (entry_texts e) \<and>
      list_all (image_ok L base_url) (entry_images e))"

text \<open>
  The option of slot \<^verbatim>\<open>i\<close>, when the slot is populated: its content has a text or an
  image.
\<close>

definition slot_option ::
  "env \<Rightarrow> ustr \<Rightarrow> (ustr \<times> json) list \<Rightarrow> nat \<Rightarrow> option_rec option"
where
  "slot_option L lang q i =
     (case parse_html_field L (dget q (lit ''option_'' @ lang @ lit ''_'' @ str_nat i)) of
        Inl e \<Rightarrow> None
      | Inr (t, imgs) \<Rightarrow>
          if t \<noteq> [] \<or> imgs \<noteq> [] then Some \<lparr>opt_text = t, opt_images = imgs\<rparr> else None)"

section \<open>An environment to run the program in\<close>

text \<open>
  A parser that knows one fragment and reads every other string as plain text, a JSON
  parser that knows one text, the decimal values of the Arabic-Indic, Devanagari and
  fullwidth digits, a network where one address serves an image (a PNG file of one
  pixel), one serves a page of HTML, two serve wrapped payloads (a list with its quotes
  escaped, and a word that is no JSON) and nothing else can be reached, a document writer
  that takes that image and no other bytes and takes a text unless it has a control
  character other than tab, line feed and carriage return, and \<^verbatim>\<open>urljoin\<close> for a base
  that is an origin and a reference that is an absolute path, raising on the reference
  \<^verbatim>\<open>/\<close>, tab, \<^verbatim>\<open>/[\<close> as \<^verbatim>\<open>urllib\<close> does.
\<close>

definition example_png :: bytes where
  "example_png =
     [137, 80, 78, 71, 13, 10, 26, 10, 0, 0, 0, 13, 73, 72, 68, 82, 0, 0, 0, 1, 0, 0, 0, 1, 8,
      6, 0, 0, 0, 31, 21, 196, 137, 0, 0, 0, 13, 73, 68, 65, 84, 120, 218, 99, 100, 96, 248,
      95, 15, 0, 2, 135, 1, 128, 235, 71, 186, 146, 0, 0, 0, 0, 73, 69, 78, 68, 174, 66, 96,
      130]"

definition example_decimal :: "int \<Rightarrow> nat option" where
  "example_decimal c =
     (if 1632 \<le> c \<and> c \<le> 1641 then Some (nat (c - 1632))
      else if 2406 \<le> c \<and> c \<le> 2415 then Some (nat (c - 2406))
      else if 65296 \<le> c \<and> c \<le> 65305 then Some (nat (c - 65296))
      else None)"

definition example_urljoin :: "ustr \<Rightarrow> ustr \<Rightarrow> exn + ustr" where
  "example_urljoin base url =
     (if url = 47 # 9 # lit ''/['' then Inl (Exn (lit ''ValueError'') (lit ''Invalid IPv6 URL'') None)
      else Inr (base @ url))"

definition example_add_run :: "ustr \<Rightarrow> exn option" where
  "example_add_run t =
     (if list_ex (\<lambda>c. c < 32 \<and> c \<noteq> 9 \<and> c \<noteq> 10 \<and> c \<noteq> 13) t then
        Some (Exn (lit ''ValueError'') (lit ''All strings must be XML compatible'') None)
      else None)"

definition example_soup :: "json \<Rightarrow> exn + node list" where
  "example_soup s =
     (case s of
        JStr t \<Rightarrow>
          if t = (lit ''<p>A &amp; B<img src='/x.png'></p>'') then
            Inr [Tag (lit ''p'') [] [NavigableString (lit ''A & B''), Tag (lit ''img'') [(lit ''src'', lit ''/x.png'')] []]]
          else Inr [NavigableString t]
      | _ \<Rightarrow> Inl (Exn (lit ''TypeError'') (lit ''markup'') None))"

definition wrapped_payload :: ustr where
  "wrapped_payload =
     (lit ''<html><BODY class=x>'') @ [10] @ lit '' ['' @ [92, 34] @ lit ''x'' @
     [92, 34] @ (lit ''] </body></html>'')"

definition example_loads :: "ustr \<Rightarrow> exn + json" where
  "example_loads s =
     (if s = lit ''['' @ [34] @ lit ''x'' @ [34] @ (lit '']'') then Inr (JList [JStr (lit ''x'')])
      else Inl (Exn (lit ''JSONDecodeError'') s None))"

definition example_get :: "ustr \<Rightarrow> nat \<Rightarrow> exn + response" where
  "example_get url timeout =
     (if url = (lit ''https://host.com/ok.png'') then
        Inr \<lparr>raise_for_status = None, resp_content = example_png,
             resp_text = [], resp_json = Inl (Exn (lit ''JSONDecodeError'') [] None)\<rparr>
      else if url = (lit ''https://host.com/page.png'') then
        Inr \<lparr>raise_for_status = None, resp_content = [60, 104, 116, 109, 108, 62],
             resp_text = lit ''<html>'', resp_json = Inl (Exn (lit ''JSONDecodeError'') [] None)\<rparr>
      else if url = QUESTION_API_PATTERN (lit ''42'') then
        Inr \<lparr>raise_for_status = None, resp_content = [],
             resp_text = wrapped_payload,
             resp_json = Inl (Exn (lit ''JSONDecodeError'') (lit ''response'') None)\<rparr>
      else if url = QUESTION_API_PATTERN (lit ''43'') then
        Inr \<lparr>raise_for_status = None, resp_content = [],
             resp_text = lit ''<body>oops</body>'',
             resp_json = Inl (Exn (lit ''JSONDecodeError'') (lit ''response'') None)\<rparr>
      else Inl (Exn (lit ''ConnectionError'') url None))"

definition example_add_picture :: "bytes \<Rightarrow> exn option" where
  "example_add_picture data =
     (if data = example_png then None
      else Some (Exn (lit ''UnrecognizedImageError'') [] None))"

definition example_env :: env where
  "example_env =
     \<lparr>BeautifulSoup = example_soup,
      json_loads = example_loads,
      html_unescape = (\<lambda>s. s),
      repr = (\<lambda>v. lit ''?''),
      unicode_decimal = example_decimal,
      int_max_str_digits = 4300,
      urljoin = example_urljoin,
      requests = True,
      requests_get = example_get,
      Document = True,
      add_run = example_add_run,
      add_picture = example_add_picture,
      INPUT_FILE = None,
      read_file = (\<lambda>path. None)\<rparr>"

text \<open>
  A payload of one section holding one question, with four options and \<^verbatim>\<open>answer_en = "2"\<close>,
  and the record the normalizer makes of it.
\<close>

definition example_question :: "(ustr \<times> json) list" where
  "example_question =
     [(lit ''qid'', JInt 7), (lit ''question_en'', JStr (lit ''Q?'')),
      (lit ''option_en_1'', JStr (lit ''w'')), (lit ''option_en_2'', JStr (lit ''x'')),
      (lit ''option_en_3'', JStr (lit ''y'')), (lit ''option_en_4'', JStr (lit ''z'')),
      (lit ''answer_en'', JStr (lit ''2''))]"

definition example_payload :: json where
  "example_payload =
     JDict [(lit ''data'', JList [JDict [(lit ''section_id'', JInt 1), (lit ''section_name'', JStr (lit ''S'')),
              (lit ''all_questions'', JDict [(lit ''1'', JList [JDict example_question])])]])]"

definition example_entry :: entry where
  "example_entry =
     \<lparr>qid = JInt 7, section_id = JInt 1, section_name = JStr (lit ''S''), topic_id = JNull,
      question_text = lit ''Q?'', question_images = [],
      options = [\<lparr>opt_text = lit ''w'', opt_images = []\<rparr>, \<lparr>opt_text = lit ''x'', opt_images = []\<rparr>,
                 \<lparr>opt_text = lit ''y'', opt_images = []\<rparr>, \<lparr>opt_text = lit ''z'', opt_images = []\<rparr>],
      answer_index = Some 1, answer_text = lit ''b'', solution_text = [], solution_images = []\<rparr>"

text \<open>
  Three records: the image of the first can be reached, the image of the second cannot,
  the third has none.
\<close>

definition plain_entry :: "ustr \<Rightarrow> ustr list \<Rightarrow> entry" where
  "plain_entry t imgs =
     \<lparr>qid = JNull, section_id = JNull, section_name = JNull, topic_id = JNull,
      question_text = t, question_images = imgs, options = [],
      answer_index = None, answer_text = lit ''A'', solution_text = lit ''S'', solution_images = []\<rparr>"

definition example_records :: "entry list" where
  "example_records =
     [plain_entry (lit ''Q1'') [lit ''/ok.png''], plain_entry (lit ''Q2'') [lit ''/dead.png''], plain_entry (lit ''Q3'') []]"

text \<open>A question with its second option missing, and the record made of it.\<close>

definition gap_question :: "(ustr \<times> json) list" where
  "gap_question = [(lit ''option_en_1'', JStr (lit ''W'')), (lit ''option_en_3'', JStr (lit ''Y''))]"

definition gap_entry :: entry where
  "gap_entry =
     \<lparr>qid = JNull, section_id = JNull, section_name = JNull, topic_id = JNull,
      question_text = [], question_images = [],
      options = [\<lparr>opt_text = lit ''W'', opt_images = []\<rparr>, \<lparr>opt_text = lit ''Y'', opt_images = []\<rparr>],
      answer_index = None, answer_text = [], solution_text = [], solution_images = []\<rparr>"

text \<open>A record of a given section, with no section name.\<close>

definition sec_entry :: "json \<Rightarrow> ustr \<Rightarrow> entry" where
  "sec_entry sid t = (plain_entry t [])\<lparr>section_id := sid\<rparr>"

text \<open>The same environment reading its payload from a file.\<close>

definition file_env :: env where
  "file_env =
     example_env\<lparr>INPUT_FILE := Some (lit ''in.json''),
                  read_file := (\<lambda>path. if path = (lit ''in.json'') then Some wrapped_payload else None)\<rparr>"

section \<open>Image references\<close>

text \<open>
  C8. The URL that \<^verbatim>\<open>fetch_image_bytes\<close> requests: a reference that starts with
  \<^verbatim>\<open>//\<close> gets \<^verbatim>\<open>https:\<close> in front; one that starts with a single \<^verbatim>\<open>/\<close> is joined
  to the base URL that was supplied; one that does not start with \<^verbatim>\<open>/\<close>, an absolute
  URL among them, is requested as it is. The three examples of the specification follow,
  the second for a \<^verbatim>\<open>urljoin\<close> that joins an origin and an absolute path as
  \<^verbatim>\<open>urllib\<close> does.
\<close>

theorem image_reference_resolution:
  "(startswith u (lit ''//'') \<longrightarrow> image_request_url L u b = Inr (lit ''https:'' @ u)) \<and>
   (startswith u (lit ''/'') \<and> \<not> startswith u (lit ''//'') \<and> base \<noteq> [] \<longrightarrow>
      image_request_url L u (Some base) = urljoin L base u) \<and>
   (\<not> startswith u (lit ''/'') \<longrightarrow> image_request_url L u b = Inr u) \<and>
   image_request_url L (lit ''//cdn.example.com/x.png'') b = Inr (lit ''https://cdn.example.com/x.png'') \<and>
   (urljoin L (lit ''https://host.com'') (lit ''/img/x.png'') = Inr (lit ''https://host.com/img/x.png'') \<longrightarrow>
      image_request_url L (lit ''/img/x.png'') (Some (lit ''https://host.com'')) = Inr (lit ''https://host.com/img/x.png'')) \<and>
   image_request_url L (lit ''https://other.com/x.png'') b = Inr (lit ''https://other.com/x.png'')"
proof -
  have two: "startswith v (lit ''//'') \<Longrightarrow> startswith v (lit ''/'')" for v
  proof (cases v)
    case Nil
    then show "startswith v (lit ''//'') \<Longrightarrow> startswith v (lit ''/'')" by (simp add: startswith_def lit_def)
  next
    case (Cons c cs)
    then show "startswith v (lit ''//'') \<Longrightarrow> startswith v (lit ''/'')"
      by (cases cs) (simp_all add: startswith_def lit_def)
  qed
  have general: "(startswith u (lit ''//'') \<longrightarrow> image_request_url L u b = Inr (lit ''https:'' @ u)) \<and>
      (startswith u (lit ''/'') \<and> \<not> startswith u (lit ''//'') \<and> base \<noteq> [] \<longrightarrow>
        image_request_url L u (Some base) = urljoin L base u) \<and>
      (\<not> startswith u (lit ''/'') \<longrightarrow> image_request_url L u b = Inr u)"
    using two [of u] by (auto simp: image_request_url_def)
  have examples: "image_request_url L (lit ''//cdn.example.com/x.png'') b = Inr (lit ''https://cdn.example.com/x.png'') \<and>
      (urljoin L (lit ''https://host.com'') (lit ''/img/x.png'') = Inr (lit ''https://host.com/img/x.png'') \<longrightarrow>
        image_request_url L (lit ''/img/x.png'') (Some (lit ''https://host.com'')) = Inr (lit ''https://host.com/img/x.png'')) \<and>
      image_request_url L (lit ''https://other.com/x.png'') b = Inr (lit ''https://other.com/x.png'')"
    by (simp add: image_request_url_def startswith_def lit_def)
  from general examples show ?thesis by blast
qed

theorem image_reference_resolution_witness:
  "startswith (lit ''//cdn.example.com/x.png'') (lit ''//'') \<and>
   image_request_url example_env (lit ''//cdn.example.com/x.png'') None = Inr (lit ''https://cdn.example.com/x.png'') \<and>
   startswith (lit ''/img/x.png'') (lit ''/'') \<and> \<not> startswith (lit ''/img/x.png'') (lit ''//'') \<and>
   urljoin example_env (lit ''https://host.com'') (lit ''/img/x.png'') = Inr (lit ''https://host.com/img/x.png'') \<and>
   image_request_url example_env (lit ''/img/x.png'') (Some (lit ''https://host.com'')) = Inr (lit ''https://host.com/img/x.png'') \<and>
   \<not> startswith (lit ''https://other.com/x.png'') (lit ''/'') \<and>
   image_request_url example_env (lit ''https://other.com/x.png'') (Some (lit ''https://host.com'')) =
     Inr (lit ''https://other.com/x.png'')"
  using image_reference_resolution [of "lit ''//cdn.example.com/x.png''" example_env None "lit ''https://host.com''"]
    image_reference_resolution [of "lit ''/img/x.png''" example_env None "lit ''https://host.com''"]
    image_reference_resolution [of "lit ''https://other.com/x.png''" example_env "Some (lit ''https://host.com'')" "lit ''https://host.com''"]
  by (simp add: startswith_def example_env_def example_urljoin_def lit_def)

section \<open>Field extractor: properties\<close>

lemma img_src_find_all:
  "concat (map img_src (find_all (lit ''img'') nd)) = img_srcs_in_order nd"
proof (induction nd)
  case (NavigableString s)
  show ?case by simp
next
  case (Tag n attrs cs)
  have "concat (map img_src (concat (map (find_all (lit ''img'')) cs))) =
          concat (map img_srcs_in_order cs)"
    using Tag by (induction cs) auto
  then show ?case by simp
qed

lemma img_src_find_all_list:
  "concat (map img_src (concat (map (find_all (lit ''img'')) soup))) =
     concat (map img_srcs_in_order soup)"
  by (induction soup) (auto simp: img_src_find_all)

lemma is_space_blank: "is_space 32"
  by (simp add: is_space_def)

lemma blank_lit: "lit '' '' = [32]"
  by (simp add: lit_def)

subsection \<open>Words\<close>

lemma ws_words_nonempty: "cs \<noteq> [] \<Longrightarrow> \<not> is_space (hd cs) \<Longrightarrow> ws_words cs \<noteq> []"
  by (cases cs) (auto split: list.splits)

lemma ws_words_word: "w \<in> set (ws_words s) \<Longrightarrow> w \<noteq> []"
  by (induction s arbitrary: w) (auto split: if_splits list.splits)

lemma ws_words_spaces: "\<forall>c \<in> set s. is_space c \<Longrightarrow> ws_words s = []"
  by (induction s) auto

lemma ws_words_dropWhile: "ws_words (dropWhile is_space s) = ws_words s"
  by (induction s) auto

lemma ws_words_append_space:
  "is_space x \<Longrightarrow> ws_words (a @ x # b) = ws_words a @ ws_words b"
proof (induction a)
  case Nil
  then show ?case by simp
next
  case (Cons c a)
  show ?case
  proof (cases "is_space c")
    case True
    with Cons show ?thesis by simp
  next
    case False
    show ?thesis
    proof (cases a)
      case Nil
      with False Cons.prems show ?thesis by simp
    next
      case a: (Cons d a')
      show ?thesis
      proof (cases "is_space d")
        case True
        with False a Cons show ?thesis by simp
      next
        case nd: False
        with a have "ws_words a \<noteq> []" by (intro ws_words_nonempty) simp_all
        then obtain w ws where w: "ws_words a = w # ws" by (cases "ws_words a") auto
        with False nd a Cons show ?thesis by simp
      qed
    qed
  qed
qed

lemma ws_words_append_spaces:
  "\<forall>c \<in> set t. is_space c \<Longrightarrow> ws_words (a @ t) = ws_words a"
  by (cases t) (simp_all add: ws_words_append_space ws_words_spaces)

lemma ws_words_py_strip: "ws_words (py_strip s) = ws_words s"
proof -
  let ?s = "dropWhile is_space s"
  let ?kept = "rev (dropWhile is_space (rev ?s))" and ?cut = "rev (takeWhile is_space (rev ?s))"
  have "rev (rev ?s) = rev (takeWhile is_space (rev ?s) @ dropWhile is_space (rev ?s))"
    by (simp only: takeWhile_dropWhile_id)
  then have "?s = ?kept @ ?cut" by (simp only: rev_rev_ident rev_append)
  then have "ws_words ?s = ws_words (?kept @ ?cut)" by (rule arg_cong)
  also have "\<dots> = ws_words ?kept"
    by (rule ws_words_append_spaces) (auto dest: set_takeWhileD)
  finally have "ws_words ?kept = ws_words s" by (simp only: ws_words_dropWhile)
  then show ?thesis by (simp only: py_strip_def)
qed

lemma ws_words_py_join:
  "ws_words (py_join [32] xs) = concat (map ws_words xs)"
  by (induction "[32 :: int]" xs rule: py_join.induct)
     (simp_all add: ws_words_append_space is_space_blank)

lemma ws_words_get_text:
  "ws_words (get_text soup) = concat (map ws_words (concat (map all_strings soup)))"
proof -
  have drop_empty: "concat (map ws_words (filter (\<lambda>s. s \<noteq> []) xs)) = concat (map ws_words xs)"
    for xs by (induction xs) auto
  show ?thesis
    by (simp add: get_text_def blank_lit ws_words_py_join drop_empty comp_def ws_words_py_strip)
qed

subsection \<open>Collapsing and trimming\<close>

lemma py_join_Cons_word:
  "py_join sep ((c # w) # ws) = c # py_join sep (w # ws)"
  by (cases ws) simp_all

lemma py_join_word_first:
  "py_join [32] ([c] # ws) = (if ws = [] then [c] else c # 32 # py_join [32] ws)"
  by (cases ws) simp_all

lemma py_join_empty:
  "(\<forall>w \<in> set ws. w \<noteq> []) \<Longrightarrow> py_join sep ws = [] \<Longrightarrow> ws = []"
  by (induction sep ws rule: py_join.induct) auto

lemma rstrip_snoc:
  "rev (dropWhile P (rev s @ [c])) =
     (if rev (dropWhile P (rev s)) = [] \<and> P c then [] else c # rev (dropWhile P (rev s)))"
  by (auto simp: dropWhile_append dropWhile_eq_Nil_conv)

lemma collapse_ws_head:
  "t \<noteq> [] \<Longrightarrow> \<not> is_space (hd t) \<Longrightarrow>
     collapse_ws t \<noteq> [] \<and> hd (collapse_ws t) = hd t"
  by (cases t) auto

lemma collapse_ws_keeps_head:
  "t = [] \<or> \<not> is_space (hd t) \<Longrightarrow> dropWhile is_space (collapse_ws t) = collapse_ws t"
  by (cases t) auto

lemma collapse_ws_no_leading:
  "dropWhile is_space (collapse_ws (dropWhile is_space s)) = collapse_ws (dropWhile is_space s)"
  using collapse_ws_keeps_head [of "dropWhile is_space s"] hd_dropWhile [of is_space s]
  by blast

lemma py_strip_collapse_ws:
  "py_strip (collapse_ws t) = py_join [32] (ws_words t)"
proof (induction t rule: collapse_ws.induct)
  case 1
  show ?case by (simp add: py_strip_def)
next
  case (2 c cs)
  show ?case
  proof (cases "is_space c")
    case True
    with 2 have "py_strip (collapse_ws (dropWhile is_space cs)) =
                   py_join [32] (ws_words (dropWhile is_space cs))" by simp
    with True show ?thesis
      by (simp add: py_strip_def is_space_blank ws_words_dropWhile)
  next
    case False
    with 2 have ih: "py_strip (collapse_ws cs) = py_join [32] (ws_words cs)" by simp
    from False have strip: "py_strip (collapse_ws (c # cs)) =
        c # rev (dropWhile is_space (rev (collapse_ws cs)))"
      by (simp add: py_strip_def rstrip_snoc)
    show ?thesis
    proof (cases cs)
      case Nil
      with False strip show ?thesis by simp
    next
      case (Cons d ds)
      show ?thesis
      proof (cases "is_space d")
        case nd: False
        with Cons have "dropWhile is_space (collapse_ws cs) = collapse_ws cs" by simp
        with ih have r: "rev (dropWhile is_space (rev (collapse_ws cs))) =
                           py_join [32] (ws_words cs)"
          by (simp add: py_strip_def)
        from nd Cons have "ws_words cs \<noteq> []" by (intro ws_words_nonempty) simp_all
        then obtain w ws where w: "ws_words cs = w # ws" by (cases "ws_words cs") auto
        with False nd Cons have "ws_words (c # cs) = (c # w) # ws" by simp
        with strip r w show ?thesis by (simp add: py_join_Cons_word)
      next
        case sd: True
        let ?z = "collapse_ws (dropWhile is_space ds)"
        from sd Cons have y: "collapse_ws cs = 32 # ?z" by simp
        have z: "dropWhile is_space ?z = ?z" by (rule collapse_ws_no_leading)
        from ih y z have r: "rev (dropWhile is_space (rev ?z)) = py_join [32] (ws_words cs)"
          by (simp add: py_strip_def is_space_blank)
        have words: "ws_words (c # cs) = [c] # ws_words cs"
          using False sd Cons by simp
        have none: "py_join [32] (ws_words cs) = [] \<longleftrightarrow> ws_words cs = []"
          using py_join_empty [of "ws_words cs" "[32]"] ws_words_word [of _ cs] by auto
        from strip y r words none show ?thesis
          by (simp add: rstrip_snoc is_space_blank py_join_word_first)
      qed
    qed
  qed
qed

lemma parse_html_field_falsy: "\<not> truthy s \<Longrightarrow> parse_html_field L s = Inr ([], [])"
  by (simp add: parse_html_field_def)

lemma parse_html_field_soup:
  "truthy s \<Longrightarrow> BeautifulSoup L s = Inr soup \<Longrightarrow>
   parse_html_field L s =
     Inr (py_join (lit '' '') (concat (map ws_words (concat (map all_strings soup)))),
          concat (map img_srcs_in_order soup))"
  by (simp add: parse_html_field_def bnd_def img_src_find_all_list py_strip_collapse_ws
        ws_words_get_text blank_lit)

text \<open>
  C6. The field extractor returns the empty text and no images on None and on the empty
  string, without calling the parser. On the fragment of the specification, parsed as the
  paragraph holding the string \<^verbatim>\<open>A & B\<close> and one \<^verbatim>\<open>img\<close>, it returns \<^verbatim>\<open>A & B\<close> and
  \<^verbatim>\<open>/x.png\<close>. On any parsed input the images are the \<^verbatim>\<open>src\<close> values of the \<^verbatim>\<open>img\<close>
  tags in document order, a tag with no \<^verbatim>\<open>src\<close> (or an empty one) skipped; and the text
  is the words of the strings of the document, in order, with one space between two
  words and nothing else: every run of white space is one space, and there is none at
  either end.
\<close>

theorem field_extractor_contract:
  "parse_html_field L JNull = Inr ([], []) \<and>
   parse_html_field L (JStr []) = Inr ([], []) \<and>
   (BeautifulSoup L (JStr (lit ''<p>A &amp; B<img src='/x.png'></p>'')) =
      Inr [Tag (lit ''p'') []
             [NavigableString (lit ''A & B''), Tag (lit ''img'') [(lit ''src'', lit ''/x.png'')] []]] \<longrightarrow>
    parse_html_field L (JStr (lit ''<p>A &amp; B<img src='/x.png'></p>'')) =
      Inr (lit ''A & B'', [lit ''/x.png''])) \<and>
   (truthy s \<and> BeautifulSoup L s = Inr soup \<longrightarrow>
      parse_html_field L s =
        Inr (py_join (lit '' '') (concat (map ws_words (concat (map all_strings soup)))),
             concat (map img_srcs_in_order soup)))"
proof -
  have e1: "parse_html_field L JNull = Inr ([], [])"
    by (simp add: parse_html_field_falsy)
  have e2: "parse_html_field L (JStr []) = Inr ([], [])"
    by (simp add: parse_html_field_falsy)
  have words: "py_join (lit '' '') (concat (map ws_words (concat (map all_strings
      [Tag (lit ''p'') []
         [NavigableString (lit ''A & B''), Tag (lit ''img'') [(lit ''src'', lit ''/x.png'')] []]])))) =
      lit ''A & B''"
    by code_simp
  have imgs: "concat (map img_srcs_in_order
      [Tag (lit ''p'') []
         [NavigableString (lit ''A & B''), Tag (lit ''img'') [(lit ''src'', lit ''/x.png'')] []]]) =
      [lit ''/x.png'']"
    by code_simp
  have t: "truthy (JStr (lit ''<p>A &amp; B<img src='/x.png'></p>''))"
    by (simp add: lit_def)
  have example: "BeautifulSoup L (JStr (lit ''<p>A &amp; B<img src='/x.png'></p>'')) =
      Inr [Tag (lit ''p'') []
             [NavigableString (lit ''A & B''), Tag (lit ''img'') [(lit ''src'', lit ''/x.png'')] []]] \<longrightarrow>
    parse_html_field L (JStr (lit ''<p>A &amp; B<img src='/x.png'></p>'')) =
      Inr (lit ''A & B'', [lit ''/x.png''])"
  proof
    assume "BeautifulSoup L (JStr (lit ''<p>A &amp; B<img src='/x.png'></p>'')) =
      Inr [Tag (lit ''p'') []
             [NavigableString (lit ''A & B''), Tag (lit ''img'') [(lit ''src'', lit ''/x.png'')] []]]"
    from parse_html_field_soup [OF t this]
    show "parse_html_field L (JStr (lit ''<p>A &amp; B<img src='/x.png'></p>'')) =
      Inr (lit ''A & B'', [lit ''/x.png''])"
      unfolding words imgs .
  qed
  have general: "truthy s \<and> BeautifulSoup L s = Inr soup \<longrightarrow>
      parse_html_field L s =
        Inr (py_join (lit '' '') (concat (map ws_words (concat (map all_strings soup)))),
             concat (map img_srcs_in_order soup))"
  proof
    assume "truthy s \<and> BeautifulSoup L s = Inr soup"
    then have "truthy s" and "BeautifulSoup L s = Inr soup" by (rule conjunct1, rule conjunct2)
    then show "parse_html_field L s =
        Inr (py_join (lit '' '') (concat (map ws_words (concat (map all_strings soup)))),
             concat (map img_srcs_in_order soup))"
      by (rule parse_html_field_soup)
  qed
  show ?thesis by (intro conjI e1 e2 example general)
qed

theorem field_extractor_contract_witness:
  "BeautifulSoup example_env (JStr (lit ''<p>A &amp; B<img src='/x.png'></p>'')) =
      Inr [Tag (lit ''p'') []
             [NavigableString (lit ''A & B''), Tag (lit ''img'') [(lit ''src'', lit ''/x.png'')] []]] \<and>
   parse_html_field example_env (JStr (lit ''<p>A &amp; B<img src='/x.png'></p>'')) =
     Inr (lit ''A & B'', [lit ''/x.png'']) \<and>
   truthy (JStr ([32, 32] @ lit ''a'' @ [9, 8195, 10] @ lit ''b c'' @ [160])) \<and>
   BeautifulSoup example_env (JStr ([32, 32] @ lit ''a'' @ [9, 8195, 10] @ lit ''b c'' @ [160])) =
     Inr [NavigableString ([32, 32] @ lit ''a'' @ [9, 8195, 10] @ lit ''b c'' @ [160])] \<and>
   ws_words ([32, 32] @ lit ''a'' @ [9, 8195, 10] @ lit ''b c'' @ [160]) =
     [lit ''a'', lit ''b'', lit ''c''] \<and>
   parse_html_field example_env (JStr ([32, 32] @ lit ''a'' @ [9, 8195, 10] @ lit ''b c'' @ [160])) =
     Inr (lit ''a b c'', [])"
proof -
  let ?frag = "JStr (lit ''<p>A &amp; B<img src='/x.png'></p>'')"
  let ?tree = "[Tag (lit ''p'') []
             [NavigableString (lit ''A & B''), Tag (lit ''img'') [(lit ''src'', lit ''/x.png'')] []]]"
  let ?s = "[32, 32] @ lit ''a'' @ [9, 8195, 10] @ lit ''b c'' @ [160]"
  have b1: "BeautifulSoup example_env ?frag = Inr ?tree" by code_simp
  have t2: "truthy (JStr ?s)" by code_simp
  have b2: "BeautifulSoup example_env (JStr ?s) = Inr [NavigableString ?s]" by code_simp
  have w: "ws_words ?s = [lit ''a'', lit ''b'', lit ''c'']" by code_simp
  have j: "py_join (lit '' '') [lit ''a'', lit ''b'', lit ''c''] = lit ''a b c''" by code_simp
  from field_extractor_contract [of example_env "JStr ?s" "[NavigableString ?s]"] t2 b2
  have p2: "parse_html_field example_env (JStr ?s) =
     Inr (py_join (lit '' '') (concat (map ws_words (concat (map all_strings [NavigableString ?s])))),
          concat (map img_srcs_in_order [NavigableString ?s]))"
    by blast
  from field_extractor_contract [of example_env "JStr []" "[]"] b1
  have p1: "parse_html_field example_env ?frag = Inr (lit ''A & B'', [lit ''/x.png''])"
    by blast
  from p2 w j have p2': "parse_html_field example_env (JStr ?s) = Inr (lit ''a b c'', [])"
    by simp
  from b1 p1 t2 b2 w p2' show ?thesis by blast
qed

section \<open>Record normalizer: the answer\<close>

lemma option_loop_length:
  "option_loop L lang q is opts = Inr r \<Longrightarrow> length r \<le> length opts + length is"
proof (induction "is" arbitrary: opts)
  case Nil
  then show ?case by simp
next
  case (Cons i "is")
  show ?case
  proof (cases "truthy (dget q (lit ''option_'' @ lang @ lit ''_'' @ str_nat i))")
    case False
    with Cons.prems have "option_loop L lang q is opts = Inr r" by simp
    from Cons.IH [OF this] show ?thesis by simp
  next
    case True
    show ?thesis
    proof (cases "parse_html_field L (dget q (lit ''option_'' @ lang @ lit ''_'' @ str_nat i))")
      case (Inl e)
      with True Cons.prems show ?thesis by (simp add: bnd_def)
    next
      case (Inr p)
      obtain t imgs where p: "p = (t, imgs)" by (cases p)
      show ?thesis
      proof (cases "t \<noteq> [] \<or> imgs \<noteq> []")
        case keep: True
        with True Inr p Cons.prems
        have "option_loop L lang q is (opts @ [\<lparr>opt_text = t, opt_images = imgs\<rparr>]) = Inr r"
          by (auto simp: bnd_def)
        from Cons.IH [OF this] show ?thesis by simp
      next
        case drop: False
        with True Inr p Cons.prems have "option_loop L lang q is opts = Inr r"
          by (auto simp: bnd_def)
        from Cons.IH [OF this] show ?thesis by simp
      qed
    qed
  qed
qed

lemma process_question_Inr:
  assumes "process_question L lang sec_id sec_name (JDict q) = Inr e"
  shows "option_loop L lang q [1..<6] [] = Inr (options e) \<and>
         resolve_answer L lang q (options e) = Inr (answer_index e, answer_text e)"
  using assms
  by (auto simp: process_question_def bnd_def split: sum.splits prod.splits)

lemma process_question_options_le:
  assumes "process_question L lang sec_id sec_name (JDict q) = Inr e"
  shows "length (options e) \<le> 5"
  using option_loop_length [of L lang q "[1..<6]" "[]" "options e"] process_question_Inr [OF assms]
  by simp

lemma py_int_falsy: "\<not> truthy ar \<Longrightarrow> py_int L ar = Inr n \<Longrightarrow> n = 0"
  by (cases ar) (auto simp: int_of_str_def int_strip_def nat_literal_def startswith_def lit_def)

lemma py_int_two: "py_int L (JStr (lit ''2'')) = Inr 2"
  by (simp add: int_of_str_def int_strip_def int_space_def is_space_def nat_literal_def
        decimal_def startswith_def lit_def)

lemma resolve_answer_falsy:
  "\<not> truthy (dget q (lit ''answer_en'')) \<Longrightarrow> resolve_answer L lang q opts = Inr (None, [])"
  by (simp add: resolve_answer_def)

lemma answer_fallback_Inr:
  "answer_fallback L lang q ar = Inr (ai, txt) \<Longrightarrow>
     ai = None \<and> (\<exists>imgs. parse_html_field L (py_or (dget q (lit ''answer_'' @ lang)) ar) = Inr (txt, imgs))"
  by (auto simp: answer_fallback_def bnd_def split: sum.splits prod.splits)

lemma try_except_Inr:
  "try_except m h = Inr x \<Longrightarrow> m = Inr x \<or> ((\<exists>e. m = Inl e) \<and> h = Inr x)"
  by (auto simp: try_except_def split: sum.splits)

lemma resolve_answer_valid:
  assumes "py_int L (dget q (lit ''answer_en'')) = Inr n" "1 \<le> n" "n \<le> int (length opts)"
  shows "resolve_answer L lang q opts =
           Inr (Some (n - 1), if n - 1 < int (length labels) then labels ! nat (n - 1) else str_int n)"
proof -
  have "truthy (dget q (lit ''answer_en''))"
    using py_int_falsy [of "dget q (lit ''answer_en'')" L n] assms by auto
  with assms show ?thesis
    by (simp add: resolve_answer_def bnd_def try_except_def Let_def)
qed

lemma resolve_answer_invalid:
  assumes "truthy (dget q (lit ''answer_en''))"
    and "\<not> (\<exists>n. py_int L (dget q (lit ''answer_en'')) = Inr n \<and> 1 \<le> n \<and> n \<le> int (length opts))"
    and "resolve_answer L lang q opts = Inr (ai, txt)"
  shows "ai = None \<and>
         (\<exists>imgs. parse_html_field L (py_or (dget q (lit ''answer_'' @ lang)) (dget q (lit ''answer_en''))) =
                    Inr (txt, imgs))"
proof -
  from assms(1,3) have
    "try_except
       (bnd (py_int L (dget q (lit ''answer_en''))) (\<lambda>i0.
          if 1 \<le> i0 \<and> i0 \<le> int (length opts) then
            Inr (Some (i0 - 1),
                 if i0 - 1 < int (length labels) then labels ! nat (i0 - 1) else str_int i0)
          else answer_fallback L lang q (dget q (lit ''answer_en''))))
       (answer_fallback L lang q (dget q (lit ''answer_en''))) = Inr (ai, txt)"
    unfolding resolve_answer_def Let_def by simp
  from try_except_Inr [OF this] assms(2)
  have "answer_fallback L lang q (dget q (lit ''answer_en'')) = Inr (ai, txt)"
    by (cases "py_int L (dget q (lit ''answer_en''))") (auto simp: bnd_def split: if_splits)
  from answer_fallback_Inr [OF this] show ?thesis .
qed

text \<open>
  C1. For a question object the normalizer turns into a record, \<^verbatim>\<open>answer_index\<close> is set
  exactly when \<^verbatim>\<open>int(answer_en)\<close> succeeds with a value \<^verbatim>\<open>n\<close> between 1 and the number of
  retained options. It is then \<^verbatim>\<open>n - 1\<close>, which lies between 0 and the number of options,
  and \<^verbatim>\<open>answer_text\<close> is the letter of \<^verbatim>\<open>labels\<close> at that position, one of a to e. With
  \<^verbatim>\<open>answer_en = "2"\<close> and four retained options the index is 1 and the text is b.
\<close>

theorem answer_index_invariant:
  "process_question L lang sec_id sec_name (JDict q) = Inr e \<longrightarrow>
     ((answer_index e \<noteq> None) =
        (\<exists>n. py_int L (dget q (lit ''answer_en'')) = Inr n \<and> 1 \<le> n \<and> n \<le> int (length (options e)))) \<and>
     (\<forall>n. py_int L (dget q (lit ''answer_en'')) = Inr n \<and> 1 \<le> n \<and> n \<le> int (length (options e)) \<longrightarrow>
          answer_index e = Some (n - 1) \<and> 0 \<le> n - 1 \<and> n - 1 < int (length (options e)) \<and>
          nat (n - 1) < length labels \<and> answer_text e = labels ! nat (n - 1) \<and>
          answer_text e \<in> {(lit ''a''), lit ''b'', lit ''c'', lit ''d'', (lit ''e'')}) \<and>
     (dget q (lit ''answer_en'') = JStr (lit ''2'') \<and> length (options e) = 4 \<longrightarrow>
          answer_index e = Some 1 \<and> answer_text e = lit ''b'')"
proof
  assume pq: "process_question L lang sec_id sec_name (JDict q) = Inr e"
  let ?ar = "dget q (lit ''answer_en'')"
  let ?valid = "\<lambda>n. py_int L ?ar = Inr n \<and> 1 \<le> n \<and> n \<le> int (length (options e))"
  from process_question_Inr [OF pq]
  have ra: "resolve_answer L lang q (options e) = Inr (answer_index e, answer_text e)" by simp
  have le5: "length (options e) \<le> 5" by (rule process_question_options_le [OF pq])
  have valid: "answer_index e = Some (n - 1) \<and> 0 \<le> n - 1 \<and> n - 1 < int (length (options e)) \<and>
          nat (n - 1) < length labels \<and> answer_text e = labels ! nat (n - 1)" if v: "?valid n" for n
  proof -
    from v le5 have small: "n - 1 < int (length labels)" by (simp add: labels_def)
    from v have "resolve_answer L lang q (options e) =
        Inr (Some (n - 1), if n - 1 < int (length labels) then labels ! nat (n - 1) else str_int n)"
      by (intro resolve_answer_valid) simp_all
    with ra small v show ?thesis by auto
  qed
  have letters: "k < length labels \<Longrightarrow> labels ! k \<in> {(lit ''a''), lit ''b'', lit ''c'', lit ''d'', (lit ''e'')}" for k
    by (auto simp: labels_def less_Suc_eq numeral_eq_Suc)
  have absent: "answer_index e = None" if nv: "\<not> (\<exists>n. ?valid n)"
  proof (cases "truthy ?ar")
    case True
    from resolve_answer_invalid [OF True nv ra] show ?thesis by simp
  next
    case False
    from resolve_answer_falsy [OF False, of L lang "options e"] ra show ?thesis by simp
  qed
  have iff: "(answer_index e \<noteq> None) = (\<exists>n. ?valid n)"
    using valid absent by fastforce
  have two: "answer_index e = Some 1 \<and> answer_text e = (lit ''b'')"
    if "?ar = JStr (lit ''2'')" "length (options e) = 4"
  proof -
    have "py_int L (JStr (lit ''2'')) = Inr 2" by (rule py_int_two)
    with that have "?valid 2" by simp
    from valid [OF this] show ?thesis by (simp add: labels_def)
  qed
  from iff valid letters two
  show "((answer_index e \<noteq> None) = (\<exists>n. ?valid n)) \<and>
     (\<forall>n. ?valid n \<longrightarrow>
          answer_index e = Some (n - 1) \<and> 0 \<le> n - 1 \<and> n - 1 < int (length (options e)) \<and>
          nat (n - 1) < length labels \<and> answer_text e = labels ! nat (n - 1) \<and>
          answer_text e \<in> {(lit ''a''), lit ''b'', lit ''c'', lit ''d'', (lit ''e'')}) \<and>
     (?ar = JStr (lit ''2'') \<and> length (options e) = 4 \<longrightarrow>
          answer_index e = Some 1 \<and> answer_text e = lit ''b'')"
    by (intro conjI allI impI) auto
qed

theorem answer_index_invariant_witness:
  "process_data example_env example_payload (lit ''en'') = Inr [example_entry] \<and>
   process_question example_env (lit ''en'') (JInt 1) (JStr (lit ''S'')) (JDict example_question) = Inr example_entry \<and>
   dget example_question (lit ''answer_en'') = JStr (lit ''2'') \<and> length (options example_entry) = 4 \<and>
   answer_index example_entry = Some 1 \<and> answer_text example_entry = (lit ''b'')"
proof -
  have pd: "process_data example_env example_payload (lit ''en'') = Inr [example_entry]" by code_simp
  have pq: "process_question example_env (lit ''en'') (JInt 1) (JStr (lit ''S'')) (JDict example_question) =
              Inr example_entry" by code_simp
  have ar: "dget example_question (lit ''answer_en'') = JStr (lit ''2'')" by code_simp
  have len: "length (options example_entry) = 4" by (simp add: example_entry_def)
  from answer_index_invariant [of example_env "lit ''en''" "JInt 1" "JStr (lit ''S'')" example_question example_entry]
    pd pq ar len
  show ?thesis by simp
qed

text \<open>
  C10. When \<^verbatim>\<open>answer_en\<close> is missing, null or the empty string (or any other falsy value),
  the answer is resolved to no index and the empty text. The result is the same for every
  question object with that \<^verbatim>\<open>answer_en\<close>, whatever its \<^verbatim>\<open>answer_{lang}\<close> field holds and
  whatever the parser would do: the fallback is not run. The record produced has
  \<^verbatim>\<open>answer_index\<close> None and \<^verbatim>\<open>answer_text\<close> empty.
\<close>

theorem empty_answer_en:
  "(map_of q (lit ''answer_en'') = None \<or> map_of q (lit ''answer_en'') = Some JNull \<or>
    map_of q (lit ''answer_en'') = Some (JStr []) \<or> \<not> truthy (dget q (lit ''answer_en''))) \<longrightarrow>
     resolve_answer L lang q opts = Inr (None, []) \<and>
     (\<forall>L' q' opts'. dget q' (lit ''answer_en'') = dget q (lit ''answer_en'') \<longrightarrow>
        resolve_answer L' lang q' opts' = Inr (None, [])) \<and>
     (process_question L lang sec_id sec_name (JDict q) = Inr e \<longrightarrow>
        answer_index e = None \<and> answer_text e = [])"
proof
  assume "map_of q (lit ''answer_en'') = None \<or> map_of q (lit ''answer_en'') = Some JNull \<or>
    map_of q (lit ''answer_en'') = Some (JStr []) \<or> \<not> truthy (dget q (lit ''answer_en''))"
  then have falsy: "\<not> truthy (dget q (lit ''answer_en''))"
    by (auto simp: dget_def)
  have here: "resolve_answer L lang q opts = Inr (None, [])"
    by (rule resolve_answer_falsy [OF falsy])
  have others: "resolve_answer L' lang q' opts' = Inr (None, [])"
    if "dget q' (lit ''answer_en'') = dget q (lit ''answer_en'')" for L' q' opts'
    using that falsy by (intro resolve_answer_falsy) simp
  have rec: "answer_index e = None \<and> answer_text e = []"
    if pq: "process_question L lang sec_id sec_name (JDict q) = Inr e"
    using process_question_Inr [OF pq] resolve_answer_falsy [OF falsy, of L lang "options e"]
    by simp
  from here others rec
  show "resolve_answer L lang q opts = Inr (None, []) \<and>
     (\<forall>L' q' opts'. dget q' (lit ''answer_en'') = dget q (lit ''answer_en'') \<longrightarrow>
        resolve_answer L' lang q' opts' = Inr (None, [])) \<and>
     (process_question L lang sec_id sec_name (JDict q) = Inr e \<longrightarrow>
        answer_index e = None \<and> answer_text e = [])"
    by blast
qed

theorem empty_answer_en_witness:
  "map_of [(lit ''answer_en'', JStr []), (lit ''answer_hi'', JStr (lit ''Y''))] (lit ''answer_en'') = Some (JStr []) \<and>
   process_question example_env (lit ''hi'') JNull JNull
       (JDict [(lit ''answer_en'', JStr []), (lit ''answer_hi'', JStr (lit ''Y''))]) =
     Inr \<lparr>qid = JNull, section_id = JNull, section_name = JNull, topic_id = JNull,
          question_text = [], question_images = [], options = [],
          answer_index = None, answer_text = [], solution_text = [], solution_images = []\<rparr> \<and>
   resolve_answer example_env (lit ''hi'') [(lit ''answer_en'', JStr []), (lit ''answer_hi'', JStr (lit ''Y''))] [] =
     Inr (None, [])"
proof -
  have pq: "process_question example_env (lit ''hi'') JNull JNull
       (JDict [(lit ''answer_en'', JStr []), (lit ''answer_hi'', JStr (lit ''Y''))]) =
     Inr \<lparr>qid = JNull, section_id = JNull, section_name = JNull, topic_id = JNull,
          question_text = [], question_images = [], options = [],
          answer_index = None, answer_text = [], solution_text = [], solution_images = []\<rparr>"
    by code_simp
  from empty_answer_en [of "[(lit ''answer_en'', JStr []), (lit ''answer_hi'', JStr (lit ''Y''))]"
      example_env "lit ''hi''" "[]" JNull JNull] pq
  show ?thesis by simp
qed

text \<open>
  C5, as amended. When \<^verbatim>\<open>answer_en\<close> is present and non-empty (truthy) but is not a valid
  1-based choice among the retained options, the record produced has no \<^verbatim>\<open>answer_index\<close>,
  and its \<^verbatim>\<open>answer_text\<close> is the text the field extractor gives for \<^verbatim>\<open>answer_{lang}\<close>, or
  for the raw \<^verbatim>\<open>answer_en\<close> value when \<^verbatim>\<open>answer_{lang}\<close> is missing, null or empty.
\<close>

theorem answer_text_fallback:
  "process_question L lang sec_id sec_name (JDict q) = Inr e \<and>
   truthy (dget q (lit ''answer_en'')) \<and>
   \<not> (\<exists>n. py_int L (dget q (lit ''answer_en'')) = Inr n \<and> 1 \<le> n \<and> n \<le> int (length (options e))) \<longrightarrow>
     answer_index e = None \<and>
     (\<exists>imgs. parse_html_field L
               (if truthy (dget q (lit ''answer_'' @ lang)) then dget q (lit ''answer_'' @ lang)
                else dget q (lit ''answer_en'')) = Inr (answer_text e, imgs))"
proof
  assume a: "process_question L lang sec_id sec_name (JDict q) = Inr e \<and>
   truthy (dget q (lit ''answer_en'')) \<and>
   \<not> (\<exists>n. py_int L (dget q (lit ''answer_en'')) = Inr n \<and> 1 \<le> n \<and> n \<le> int (length (options e)))"
  then have ra: "resolve_answer L lang q (options e) = Inr (answer_index e, answer_text e)"
    using process_question_Inr by blast
  from a have t: "truthy (dget q (lit ''answer_en''))" by simp
  from a have nv: "\<not> (\<exists>n. py_int L (dget q (lit ''answer_en'')) = Inr n \<and> 1 \<le> n \<and>
                        n \<le> int (length (options e)))" by simp
  from resolve_answer_invalid [OF t nv ra]
  show "answer_index e = None \<and>
     (\<exists>imgs. parse_html_field L
               (if truthy (dget q (lit ''answer_'' @ lang)) then dget q (lit ''answer_'' @ lang)
                else dget q (lit ''answer_en'')) = Inr (answer_text e, imgs))"
    unfolding py_or_def .
qed

theorem answer_text_fallback_witness:
  "py_int example_env (JStr [28, 50]) =
     Inl (Exn (lit ''ValueError'') (lit ''invalid literal for int() with base 10'') None) \<and>
   process_question example_env (lit ''en'') JNull JNull
       (JDict [(lit ''option_en_1'', JStr (lit ''w'')), (lit ''option_en_2'', JStr (lit ''x'')),
               (lit ''option_en_3'', JStr (lit ''y'')), (lit ''option_en_4'', JStr (lit ''z'')),
               (lit ''answer_en'', JStr [28, 50])]) =
     Inr \<lparr>qid = JNull, section_id = JNull, section_name = JNull, topic_id = JNull,
          question_text = [], question_images = [],
          options = [\<lparr>opt_text = lit ''w'', opt_images = []\<rparr>, \<lparr>opt_text = lit ''x'', opt_images = []\<rparr>,
                     \<lparr>opt_text = lit ''y'', opt_images = []\<rparr>, \<lparr>opt_text = lit ''z'', opt_images = []\<rparr>],
          answer_index = None, answer_text = lit ''2'', solution_text = [], solution_images = []\<rparr> \<and>
   parse_html_field example_env (JStr [28, 50]) = Inr (lit ''2'', [])"
proof -
  let ?q = "[(lit ''option_en_1'', JStr (lit ''w'')), (lit ''option_en_2'', JStr (lit ''x'')),
             (lit ''option_en_3'', JStr (lit ''y'')), (lit ''option_en_4'', JStr (lit ''z'')),
             (lit ''answer_en'', JStr [28, 50])]"
  let ?e = "\<lparr>qid = JNull, section_id = JNull, section_name = JNull, topic_id = JNull,
          question_text = [], question_images = [],
          options = [\<lparr>opt_text = lit ''w'', opt_images = []\<rparr>, \<lparr>opt_text = lit ''x'', opt_images = []\<rparr>,
                     \<lparr>opt_text = lit ''y'', opt_images = []\<rparr>, \<lparr>opt_text = lit ''z'', opt_images = []\<rparr>],
          answer_index = None, answer_text = lit ''2'', solution_text = [], solution_images = []\<rparr>"
  have pq: "process_question example_env (lit ''en'') JNull JNull (JDict ?q) = Inr ?e"
    by code_simp
  have ar: "dget ?q (lit ''answer_en'') = JStr [28, 50]" by code_simp
  have pi: "py_int example_env (JStr [28, 50]) =
     Inl (Exn (lit ''ValueError'') (lit ''invalid literal for int() with base 10'') None)"
    by code_simp
  from ar have t: "truthy (dget ?q (lit ''answer_en''))" by simp
  from ar pi have nv: "\<not> (\<exists>n. py_int example_env (dget ?q (lit ''answer_en'')) = Inr n \<and> 1 \<le> n \<and>
                  n \<le> int (length (options ?e)))" by simp
  have al: "dget ?q (lit ''answer_'' @ lit ''en'') = JStr [28, 50]" by code_simp
  have ph: "parse_html_field example_env (JStr [28, 50]) = Inr (lit ''2'', [])" by code_simp
  from answer_text_fallback [of example_env "lit ''en''" JNull JNull ?q ?e] pq t nv
  have "\<exists>imgs. parse_html_field example_env
               (if truthy (dget ?q (lit ''answer_'' @ lit ''en'')) then dget ?q (lit ''answer_'' @ lit ''en'')
                else dget ?q (lit ''answer_en'')) = Inr (answer_text ?e, imgs)"
    by blast
  with pq pi ph show ?thesis by blast
qed

text \<open>
  The claim C5 as first stated fails without the guard on \<^verbatim>\<open>answer_en\<close>: a question with
  no \<^verbatim>\<open>answer_en\<close> and \<^verbatim>\<open>answer_hi = "X"\<close> has no valid choice, the extractor reads
  \<^verbatim>\<open>answer_hi\<close> as X, and the record's \<^verbatim>\<open>answer_text\<close> is empty. And an \<^verbatim>\<open>answer_hi\<close>
  that is present but empty gives way to \<^verbatim>\<open>answer_en\<close>.
\<close>

theorem answer_text_fallback_counterexample:
  "py_int example_env (dget [(lit ''answer_hi'', JStr (lit ''X''))] (lit ''answer_en'')) = Inl (Exn (lit ''TypeError'') (lit ''int() argument'') None) \<and>
   parse_html_field example_env (dget [(lit ''answer_hi'', JStr (lit ''X''))] (lit ''answer_hi'')) = Inr (lit ''X'', []) \<and>
   process_question example_env (lit ''hi'') JNull JNull (JDict [(lit ''answer_hi'', JStr (lit ''X''))]) =
     Inr \<lparr>qid = JNull, section_id = JNull, section_name = JNull, topic_id = JNull,
          question_text = [], question_images = [], options = [],
          answer_index = None, answer_text = [], solution_text = [], solution_images = []\<rparr> \<and>
   parse_html_field example_env (dget [(lit ''answer_en'', JStr (lit ''X'')), (lit ''answer_hi'', JStr [])] (lit ''answer_hi'')) =
     Inr ([], []) \<and>
   process_question example_env (lit ''hi'') JNull JNull
       (JDict [(lit ''answer_en'', JStr (lit ''X'')), (lit ''answer_hi'', JStr [])]) =
     Inr \<lparr>qid = JNull, section_id = JNull, section_name = JNull, topic_id = JNull,
          question_text = [], question_images = [], options = [],
          answer_index = None, answer_text = lit ''X'', solution_text = [], solution_images = []\<rparr>"
  by code_simp

section \<open>Document assembler: properties\<close>

lemma bnd_Inr_iff: "(bnd m f = Inr y) = (\<exists>x. m = Inr x \<and> f x = Inr y)"
  by (cases m) (simp_all add: bnd_def)

lemma fetched_Nil: "fetched L base_url [] = []"
  by (simp add: fetched_def List.map_filter_simps)

lemma fetched_Cons:
  "fetched L base_url (u # imgs) =
     (case fetch_image_bytes L u base_url of
        Inl e \<Rightarrow> fetched L base_url imgs
      | Inr None \<Rightarrow> fetched L base_url imgs
      | Inr (Some d) \<Rightarrow> if d = [] then fetched L base_url imgs else d # fetched L base_url imgs)"
  by (simp add: fetched_def List.map_filter_simps split: sum.splits option.splits)

lemma fetched_append:
  "fetched L base_url (xs @ ys) = fetched L base_url xs @ fetched L base_url ys"
  by (induction xs) (simp_all add: fetched_Nil fetched_Cons split: sum.splits option.splits)

lemma pictures_Nil: "pictures L base_url [] = []"
  by (simp add: pictures_def fetched_Nil)

lemma pictures_Cons:
  "pictures L base_url (u # imgs) =
     (case fetch_image_bytes L u base_url of
        Inl e \<Rightarrow> pictures L base_url imgs
      | Inr None \<Rightarrow> pictures L base_url imgs
      | Inr (Some d) \<Rightarrow>
          if d = [] then pictures L base_url imgs else Picture d 4 # pictures L base_url imgs)"
  by (simp add: pictures_def fetched_Cons split: sum.splits option.splits)

text \<open>Each loop returns exactly when nothing in it raises, and then it has added its blocks.\<close>

lemma add_images_iff:
  "(add_images L base_url imgs doc = Inr doc') =
     ((\<forall>u \<in> set imgs. image_ok L base_url u) \<and> doc' = doc @ pictures L base_url imgs)"
proof (induction imgs arbitrary: doc)
  case Nil
  show ?case by (auto simp: pictures_Nil)
next
  case (Cons u imgs)
  show ?case
  proof (cases "fetch_image_bytes L u base_url")
    case (Inl e)
    then show ?thesis by (simp add: bnd_def image_ok_def)
  next
    case (Inr r)
    show ?thesis
    proof (cases r)
      case None
      with Inr Cons show ?thesis by (simp add: bnd_def image_ok_def pictures_Cons)
    next
      case (Some d)
      show ?thesis
      proof (cases "d = []")
        case True
        with Some Inr Cons show ?thesis by (simp add: bnd_def image_ok_def pictures_Cons)
      next
        case False
        show ?thesis
        proof (cases "add_picture L d")
          case None
          with False Some Inr Cons [of "doc @ [Picture d 4]"] show ?thesis
            by (simp add: bnd_def image_ok_def pictures_Cons)
        next
          case (Some e)
          with False \<open>r = Some d\<close> Inr show ?thesis
            by (simp add: bnd_def image_ok_def)
        qed
      qed
    qed
  qed
qed

lemma add_text_iff:
  "(add_text L t doc = Inr doc') = (add_run L t = None \<and> doc' = doc @ [Paragraph t])"
  by (auto simp: add_text_def split: option.splits)

lemma add_options_iff:
  "(add_options L base_url idx opts doc = Inr doc') =
     ((\<forall>ko \<in> set (enumerate idx opts).
          add_run L (lit ''('' @ option_label (fst ko) @ lit '') '' @ opt_text (snd ko)) = None) \<and>
      (\<forall>u \<in> set (concat (map opt_images opts)). image_ok L base_url u) \<and>
      doc' = doc @ concat (map (\<lambda>ko.
                 Paragraph (lit ''('' @ option_label (fst ko) @ lit '') '' @ opt_text (snd ko)) #
                 pictures L base_url (opt_images (snd ko))) (enumerate idx opts)))"
proof (induction opts arbitrary: idx doc)
  case Nil
  show ?case by auto
next
  case (Cons opt opts)
  show ?case
    by (simp add: bnd_Inr_iff add_text_iff add_images_iff Cons ball_Un; blast)
qed

lemma add_entry_iff:
  "(add_entry L base_url e doc = Inr doc') =
     (writable L base_url e \<and> doc' = doc @ added_blocks L base_url e)"
  by (simp add: add_entry_def bnd_Inr_iff add_text_iff add_images_iff add_options_iff
        writable_def entry_texts_def entry_images_def added_blocks_def list_all_iff ball_Un image_Un;
         auto)

lemma add_entries_iff:
  "(add_entries L base_url es doc = Inr doc') =
     ((\<forall>e \<in> set es. writable L base_url e) \<and>
      doc' = doc @ concat (map (added_blocks L base_url) es))"
proof (induction es arbitrary: doc)
  case Nil
  show ?case by auto
next
  case (Cons e es)
  show ?case by (simp add: bnd_Inr_iff add_entry_iff Cons; blast)
qed

lemma create_docx_iff:
  "(create_docx L es base_url = Inr doc) =
     (Document L \<and> (\<forall>e \<in> set es. writable L base_url e) \<and>
      doc = concat (map (added_blocks L base_url) es))"
  by (simp add: create_docx_def add_entries_iff)

lemma create_docx_Inr:
  "create_docx L es base_url = Inr doc \<Longrightarrow> doc = concat (map (added_blocks L base_url) es)"
  by (simp add: create_docx_iff)

lemma option_label_letter: "k < 5 \<Longrightarrow> option_label k = labels ! k"
  by (simp add: option_label_def labels_def)

lemma added_blocks_entry_blocks:
  assumes "length (options e) \<le> 5"
  shows "added_blocks L base_url e = entry_blocks L base_url e"
proof -
  have "map (\<lambda>ko. Paragraph (lit ''('' @ option_label (fst ko) @ lit '') '' @ opt_text (snd ko)) #
                    pictures L base_url (opt_images (snd ko))) (enumerate 0 (options e)) =
        map (option_block L base_url) (enumerate 0 (options e))"
  proof (rule map_cong [OF refl])
    fix ko assume "ko \<in> set (enumerate 0 (options e))"
    then have "fst ko < length (options e)" by (auto simp: in_set_enumerate_eq)
    with assms have "fst ko < 5" by simp
    then show "Paragraph (lit ''('' @ option_label (fst ko) @ lit '') '' @ opt_text (snd ko)) #
                 pictures L base_url (opt_images (snd ko)) = option_block L base_url ko"
      by (simp add: option_block_def option_label_letter)
  qed
  then show ?thesis by (simp only: added_blocks_def entry_blocks_def)
qed

lemma paragraphs_append: "paragraphs (xs @ ys) = paragraphs xs @ paragraphs ys"
  by (induction xs rule: paragraphs.induct) simp_all

lemma picture_data_append: "picture_data (xs @ ys) = picture_data xs @ picture_data ys"
  by (induction xs rule: picture_data.induct) simp_all

lemma paragraphs_pictures: "paragraphs (pictures L base_url imgs) = []"
  by (induction imgs) (simp_all add: pictures_Nil pictures_Cons split: sum.splits option.splits)

lemma picture_data_pictures: "picture_data (pictures L base_url imgs) = fetched L base_url imgs"
  by (induction imgs) (simp_all add: pictures_Nil pictures_Cons fetched_Nil fetched_Cons split: sum.splits option.splits)

lemma paragraphs_option_blocks:
  "paragraphs (concat (map (\<lambda>ko. Paragraph (f ko) # pictures L base_url (g ko)) kos)) = map f kos"
  by (induction kos) (simp_all add: paragraphs_append paragraphs_pictures)

lemma picture_data_option_blocks:
  "picture_data (concat (map (\<lambda>ko. Paragraph (f ko) # pictures L base_url (opt_images (snd ko)))
                           (enumerate n opts))) =
   fetched L base_url (concat (map opt_images opts))"
  by (induction opts arbitrary: n)
     (simp_all add: picture_data_append picture_data_pictures fetched_Nil fetched_append)

lemma paragraphs_added_blocks: "paragraphs (added_blocks L base_url e) = entry_texts e"
  by (simp add: added_blocks_def entry_texts_def paragraphs_append paragraphs_pictures
        paragraphs_option_blocks)

lemma picture_data_added_blocks:
  "picture_data (added_blocks L base_url e) = fetched L base_url (entry_images e)"
  by (simp add: added_blocks_def entry_images_def picture_data_append picture_data_pictures
        picture_data_option_blocks fetched_append)

lemma paragraphs_concat:
  "paragraphs (concat (map (added_blocks L base_url) es)) = concat (map entry_texts es)"
  by (induction es) (simp_all add: paragraphs_append paragraphs_added_blocks)

lemma picture_data_concat:
  "picture_data (concat (map (added_blocks L base_url) es)) =
     concat (map (\<lambda>e. fetched L base_url (entry_images e)) es)"
  by (induction es) (simp_all add: picture_data_append picture_data_added_blocks)

lemma option_loop_map_filter:
  "option_loop L lang q is opts = Inr r \<Longrightarrow> r = opts @ List.map_filter (slot_option L lang q) is"
proof (induction "is" arbitrary: opts)
  case Nil
  then show ?case by (simp add: List.map_filter_simps)
next
  case (Cons i "is")
  let ?h = "dget q (lit ''option_'' @ lang @ lit ''_'' @ str_nat i)"
  show ?case
  proof (cases "truthy ?h")
    case False
    with Cons.prems have "option_loop L lang q is opts = Inr r" by simp
    from Cons.IH [OF this] False show ?thesis
      by (simp add: List.map_filter_simps slot_option_def parse_html_field_def)
  next
    case True
    show ?thesis
    proof (cases "parse_html_field L ?h")
      case (Inl e)
      with True Cons.prems show ?thesis by (simp add: bnd_def)
    next
      case (Inr p)
      obtain t imgs where p: "p = (t, imgs)" by (cases p)
      show ?thesis
      proof (cases "t \<noteq> [] \<or> imgs \<noteq> []")
        case keep: True
        with True Inr p Cons.prems
        have "option_loop L lang q is (opts @ [\<lparr>opt_text = t, opt_images = imgs\<rparr>]) = Inr r"
          by (auto simp: bnd_def)
        from Cons.IH [OF this] Inr p keep show ?thesis
          by (auto simp: List.map_filter_simps slot_option_def)
      next
        case drop: False
        with True Inr p Cons.prems have "option_loop L lang q is opts = Inr r"
          by (auto simp: bnd_def)
        from Cons.IH [OF this] Inr p drop show ?thesis
          by (auto simp: List.map_filter_simps slot_option_def)
      qed
    qed
  qed
qed

lemma map_enumerate_nth:
  "map h (enumerate 0 xs) = map (\<lambda>k. h (k, xs ! k)) [0..<length xs]"
  by (rule nth_equalityI) (simp_all add: nth_enumerate_eq)

text \<open>
  C4. For records of at most five options each, \<^verbatim>\<open>create_docx\<close> returns a document
  exactly when \<^verbatim>\<open>docx\<close> was imported and every record can be written (the writer takes
  its texts, the address of each of its images can be worked out and the writer takes the
  bytes fetched for it), and the document is then, record after record in the order
  given: the question paragraph and its pictures, one paragraph for each option lettered
  (a) to (e) by its position and followed by its pictures, the answer paragraph, the
  solution paragraph and its pictures, and a page break; every picture is four inches
  wide.
\<close>

theorem document_layout:
  "(\<forall>e \<in> set es. length (options e) \<le> 5) \<longrightarrow>
     (create_docx L es base_url = Inr doc) =
       (Document L \<and> (\<forall>e \<in> set es. writable L base_url e) \<and>
        doc = concat (map (entry_blocks L base_url) es))"
proof
  assume le5: "\<forall>e \<in> set es. length (options e) \<le> 5"
  then have same: "map (added_blocks L base_url) es = map (entry_blocks L base_url) es"
    by (intro map_cong [OF refl] added_blocks_entry_blocks) simp
  show "(create_docx L es base_url = Inr doc) =
       (Document L \<and> (\<forall>e \<in> set es. writable L base_url e) \<and>
        doc = concat (map (entry_blocks L base_url) es))"
    by (simp only: create_docx_iff same)
qed

theorem document_layout_witness:
  "Document example_env \<and>
   writable example_env (Some (lit ''https://host.com'')) example_entry \<and>
   writable example_env (Some (lit ''https://host.com'')) (plain_entry (lit ''Q1'') [lit ''/ok.png'']) \<and>
   create_docx example_env [example_entry, plain_entry (lit ''Q1'') [lit ''/ok.png'']]
       (Some (lit ''https://host.com'')) =
     Inr [Paragraph (lit ''[Q] Q?''), Paragraph (lit ''(a) w''), Paragraph (lit ''(b) x''),
          Paragraph (lit ''(c) y''), Paragraph (lit ''(d) z''), Paragraph (lit ''[ANS] b''),
          Paragraph (lit ''[SOL] ''), PageBreak,
          Paragraph (lit ''[Q] Q1''), Picture example_png 4,
          Paragraph (lit ''[ANS] A''), Paragraph (lit ''[SOL] S''), PageBreak]"
proof -
  let ?es = "[example_entry, plain_entry (lit ''Q1'') [lit ''/ok.png'']]"
  let ?base = "Some (lit ''https://host.com'')"
  have d: "Document example_env" by (simp add: example_env_def)
  have le5: "\<forall>e \<in> set ?es. length (options e) \<le> 5"
    by (simp add: example_entry_def plain_entry_def)
  have w1: "writable example_env ?base example_entry" by code_simp
  have w2: "writable example_env ?base (plain_entry (lit ''Q1'') [lit ''/ok.png''])" by code_simp
  from w1 w2 have w: "\<forall>e \<in> set ?es. writable example_env ?base e" by simp
  have blocks: "concat (map (entry_blocks example_env ?base) ?es) =
     [Paragraph (lit ''[Q] Q?''), Paragraph (lit ''(a) w''), Paragraph (lit ''(b) x''),
          Paragraph (lit ''(c) y''), Paragraph (lit ''(d) z''), Paragraph (lit ''[ANS] b''),
          Paragraph (lit ''[SOL] ''), PageBreak,
          Paragraph (lit ''[Q] Q1''), Picture example_png 4,
          Paragraph (lit ''[ANS] A''), Paragraph (lit ''[SOL] S''), PageBreak]"
    by code_simp
  from document_layout [of ?es example_env ?base "concat (map (entry_blocks example_env ?base) ?es)"]
    le5 d w
  have "create_docx example_env ?es ?base = Inr (concat (map (entry_blocks example_env ?base) ?es))"
    by blast
  with blocks d w1 w2 show ?thesis by simp
qed

text \<open>
  C7, as amended. A fetch that fails (the request raises, or the answer has an error
  status) gives no bytes and never stands in the way of the document: the reference is
  in order, and its image is left out while nothing else changes. When \<^verbatim>\<open>docx\<close> was
  imported and every record can be written (the writer takes its texts, \<^verbatim>\<open>urljoin\<close>
  works out the address of each image, and the writer takes the bytes that were fetched),
  \<^verbatim>\<open>create_docx\<close> returns a document, whatever fetches failed: its paragraphs are the
  texts of all the records, which do not depend on any fetch, and its pictures are the
  bytes of the images that could be fetched, in order.
\<close>

theorem image_failure_tolerance:
  "(Document L \<and> (\<forall>e \<in> set es. writable L base_url e) \<longrightarrow>
     (\<exists>doc. create_docx L es base_url = Inr doc \<and>
            paragraphs doc = concat (map entry_texts es) \<and>
            picture_data doc = concat (map (\<lambda>e. fetched L base_url (entry_images e)) es))) \<and>
   (\<forall>img_url url.
      img_url \<noteq> [] \<and> image_request_url L img_url base_url = Inr url \<and> requests L \<and>
      (case requests_get L url 15 of
         Inl x \<Rightarrow> True
       | Inr resp \<Rightarrow> raise_for_status resp \<noteq> None) \<longrightarrow>
      fetch_image_bytes L img_url base_url = Inr None) \<and>
   (\<forall>img_url xs ys.
      fetch_image_bytes L img_url base_url = Inr None \<longrightarrow>
      image_ok L base_url img_url \<and>
      fetched L base_url (xs @ img_url # ys) = fetched L base_url (xs @ ys))"
proof -
  have doc: "\<exists>doc. create_docx L es base_url = Inr doc \<and>
            paragraphs doc = concat (map entry_texts es) \<and>
            picture_data doc = concat (map (\<lambda>e. fetched L base_url (entry_images e)) es)"
    if "Document L \<and> (\<forall>e \<in> set es. writable L base_url e)"
  proof -
    from that have "create_docx L es base_url = Inr (concat (map (added_blocks L base_url) es))"
      by (simp add: create_docx_iff)
    then show ?thesis
      using paragraphs_concat [of L base_url es] picture_data_concat [of L base_url es]
      by simp
  qed
  have fails: "fetch_image_bytes L img_url base_url = Inr None"
    if "img_url \<noteq> [] \<and> image_request_url L img_url base_url = Inr url \<and> requests L \<and>
      (case requests_get L url 15 of
         Inl x \<Rightarrow> True
       | Inr resp \<Rightarrow> raise_for_status resp \<noteq> None)" for img_url url
    using that by (auto simp: fetch_image_bytes_def bnd_def split: sum.splits option.splits)
  have omit: "image_ok L base_url img_url \<and>
      fetched L base_url (xs @ img_url # ys) = fetched L base_url (xs @ ys)"
    if "fetch_image_bytes L img_url base_url = Inr None" for img_url xs ys
    using that by (simp add: image_ok_def fetched_append fetched_Cons)
  from doc fails omit show ?thesis by blast
qed

theorem image_failure_tolerance_witness:
  "requests_get example_env (lit ''https://host.com/dead.png'') 15 =
     Inl (Exn (lit ''ConnectionError'') (lit ''https://host.com/dead.png'') None) \<and>
   fetch_image_bytes example_env (lit ''/dead.png'') (Some (lit ''https://host.com'')) = Inr None \<and>
   fetch_image_bytes example_env (lit ''/ok.png'') (Some (lit ''https://host.com'')) =
     Inr (Some example_png) \<and>
   create_docx example_env example_records (Some (lit ''https://host.com'')) =
     Inr [Paragraph (lit ''[Q] Q1''), Picture example_png 4,
          Paragraph (lit ''[ANS] A''), Paragraph (lit ''[SOL] S''), PageBreak,
          Paragraph (lit ''[Q] Q2''), Paragraph (lit ''[ANS] A''), Paragraph (lit ''[SOL] S''), PageBreak,
          Paragraph (lit ''[Q] Q3''), Paragraph (lit ''[ANS] A''), Paragraph (lit ''[SOL] S''), PageBreak] \<and>
   concat (map entry_texts example_records) =
     [lit ''[Q] Q1'', lit ''[ANS] A'', lit ''[SOL] S'', lit ''[Q] Q2'', lit ''[ANS] A'', lit ''[SOL] S'',
      lit ''[Q] Q3'', lit ''[ANS] A'', lit ''[SOL] S'']"
proof -
  let ?base = "Some (lit ''https://host.com'')"
  have d: "Document example_env" by (simp add: example_env_def)
  have f1: "fetch_image_bytes example_env (lit ''/ok.png'') ?base = Inr (Some example_png)"
    by code_simp
  have f2: "fetch_image_bytes example_env (lit ''/dead.png'') ?base = Inr None"
    by code_simp
  have g: "requests_get example_env (lit ''https://host.com/dead.png'') 15 =
     Inl (Exn (lit ''ConnectionError'') (lit ''https://host.com/dead.png'') None)"
    by code_simp
  have "list_all (writable example_env ?base) example_records" by code_simp
  then have w: "\<forall>e \<in> set example_records. writable example_env ?base e"
    by (simp only: list_all_iff)
  have run: "create_docx example_env example_records ?base =
     Inr [Paragraph (lit ''[Q] Q1''), Picture example_png 4,
          Paragraph (lit ''[ANS] A''), Paragraph (lit ''[SOL] S''), PageBreak,
          Paragraph (lit ''[Q] Q2''), Paragraph (lit ''[ANS] A''), Paragraph (lit ''[SOL] S''), PageBreak,
          Paragraph (lit ''[Q] Q3''), Paragraph (lit ''[ANS] A''), Paragraph (lit ''[SOL] S''), PageBreak]"
    by code_simp
  have texts: "concat (map entry_texts example_records) =
     [lit ''[Q] Q1'', lit ''[ANS] A'', lit ''[SOL] S'', lit ''[Q] Q2'', lit ''[ANS] A'', lit ''[SOL] S'',
      lit ''[Q] Q3'', lit ''[ANS] A'', lit ''[SOL] S'']"
    by code_simp
  from image_failure_tolerance [of example_env example_records ?base] d w
  have "\<exists>doc. create_docx example_env example_records ?base = Inr doc \<and>
            paragraphs doc = concat (map entry_texts example_records)"
    by blast
  with g f1 f2 run texts show ?thesis by blast
qed

text \<open>
  The claim C7 as first stated covers an image that fails validation too, and lets no
  exception out. The second of the first three records has an image whose address serves
  a page of HTML: the fetch succeeds, the writer raises on the bytes, and the exception
  leaves \<^verbatim>\<open>create_docx\<close>; no document is made, although the image of the first record is
  a good one. And the image reference of the last record is one \<^verbatim>\<open>urljoin\<close> raises on,
  before any request is made: that exception leaves \<^verbatim>\<open>create_docx\<close> as well.
\<close>

theorem image_failure_tolerance_counterexample:
  "fetch_image_bytes example_env (lit ''/page.png'') (Some (lit ''https://host.com'')) =
     Inr (Some [60, 104, 116, 109, 108, 62]) \<and>
   add_picture example_env [60, 104, 116, 109, 108, 62] =
     Some (Exn (lit ''UnrecognizedImageError'') [] None) \<and>
   create_docx example_env
       [plain_entry (lit ''Q1'') [lit ''/ok.png''], plain_entry (lit ''Q2'') [lit ''/page.png''],
        plain_entry (lit ''Q3'') []]
       (Some (lit ''https://host.com'')) =
     Inl (Exn (lit ''UnrecognizedImageError'') [] None) \<and>
   create_docx example_env [plain_entry (lit ''Q4'') [47 # 9 # lit ''/['']]
       (Some (lit ''https://host.com'')) =
     Inl (Exn (lit ''ValueError'') (lit ''Invalid IPv6 URL'') None)"
  by code_simp

text \<open>
  C3, as amended. The options of a record are the populated slots among 1 to 5, in slot
  order, at most five. In the document each option is lettered by its position in that
  list: the option at position \<^verbatim>\<open>k\<close> (from 0) has the letter \<^verbatim>\<open>labels[k]\<close>, so an empty
  or missing slot moves the letters of the slots after it one place up.
\<close>

theorem retained_options:
  "process_question L lang sec_id sec_name (JDict q) = Inr e \<longrightarrow>
     options e = List.map_filter (slot_option L lang q) [1..<6] \<and>
     length (options e) \<le> 5 \<and>
     (\<forall>doc. create_docx L [e] base_url = Inr doc \<longrightarrow>
        paragraphs doc =
          (lit ''[Q] '' @ question_text e) #
          map (\<lambda>k. (lit ''('') @ labels ! k @ lit '') '' @ opt_text (options e ! k)) [0..<length (options e)] @
          [lit ''[ANS] '' @ answer_text e, lit ''[SOL] '' @ solution_text e])"
proof
  assume pq: "process_question L lang sec_id sec_name (JDict q) = Inr e"
  from process_question_Inr [OF pq]
  have "option_loop L lang q [1..<6] [] = Inr (options e)" by simp
  from option_loop_map_filter [OF this]
  have slots: "options e = List.map_filter (slot_option L lang q) [1..<6]" by simp
  have le5: "length (options e) \<le> 5" by (rule process_question_options_le [OF pq])
  have labelled: "paragraphs doc =
          (lit ''[Q] '' @ question_text e) #
          map (\<lambda>k. (lit ''('') @ labels ! k @ lit '') '' @ opt_text (options e ! k)) [0..<length (options e)] @
          [lit ''[ANS] '' @ answer_text e, lit ''[SOL] '' @ solution_text e]"
    if run: "create_docx L [e] base_url = Inr doc" for doc
  proof -
    from create_docx_Inr [OF run] have "paragraphs doc = entry_texts e"
      by (simp add: paragraphs_added_blocks)
    moreover have "map (\<lambda>k. (lit ''('') @ option_label k @ lit '') '' @ opt_text (options e ! k))
                     [0..<length (options e)] =
                   map (\<lambda>k. (lit ''('') @ labels ! k @ lit '') '' @ opt_text (options e ! k))
                     [0..<length (options e)]"
      using le5 by (intro map_cong [OF refl]) (simp add: option_label_letter)
    ultimately show ?thesis
      by (simp add: entry_texts_def map_enumerate_nth)
  qed
  from slots le5 labelled
  show "options e = List.map_filter (slot_option L lang q) [1..<6] \<and>
     length (options e) \<le> 5 \<and>
     (\<forall>doc. create_docx L [e] base_url = Inr doc \<longrightarrow>
        paragraphs doc =
          (lit ''[Q] '' @ question_text e) #
          map (\<lambda>k. (lit ''('') @ labels ! k @ lit '') '' @ opt_text (options e ! k)) [0..<length (options e)] @
          [lit ''[ANS] '' @ answer_text e, lit ''[SOL] '' @ solution_text e])"
    by blast
qed

theorem retained_options_witness:
  "process_question example_env (lit ''en'') JNull JNull (JDict gap_question) = Inr gap_entry \<and>
   List.map_filter (slot_option example_env (lit ''en'') gap_question) [1..<6] =
     [\<lparr>opt_text = lit ''W'', opt_images = []\<rparr>, \<lparr>opt_text = lit ''Y'', opt_images = []\<rparr>] \<and>
   create_docx example_env [gap_entry] None =
     Inr [Paragraph (lit ''[Q] ''), Paragraph (lit ''(a) W''), Paragraph (lit ''(b) Y''), Paragraph (lit ''[ANS] ''),
          Paragraph (lit ''[SOL] ''), PageBreak]"
proof -
  have pq: "process_question example_env (lit ''en'') JNull JNull (JDict gap_question) = Inr gap_entry"
    by code_simp
  have run: "create_docx example_env [gap_entry] None =
     Inr [Paragraph (lit ''[Q] ''), Paragraph (lit ''(a) W''), Paragraph (lit ''(b) Y''), Paragraph (lit ''[ANS] ''),
          Paragraph (lit ''[SOL] ''), PageBreak]"
    by code_simp
  from retained_options [of example_env "lit ''en''" JNull JNull gap_question gap_entry None] pq
  have "options gap_entry = List.map_filter (slot_option example_env (lit ''en'') gap_question) [1..<6]"
    by blast
  with pq run show ?thesis by (simp add: gap_entry_def)
qed

text \<open>
  The claim C3 as first stated keeps for slot \<^verbatim>\<open>i\<close> the letter of position \<^verbatim>\<open>i\<close>. With
  slot 1 and slot 3 populated and slot 2 missing, the option of slot 3 is second in the
  list and the document letters it (b), not (c).
\<close>

theorem retained_options_counterexample:
  "dget gap_question (lit ''option_en_2'') = JNull \<and>
   dget gap_question (lit ''option_en_3'') = JStr (lit ''Y'') \<and>
   process_question example_env (lit ''en'') JNull JNull (JDict gap_question) = Inr gap_entry \<and>
   options gap_entry = [\<lparr>opt_text = lit ''W'', opt_images = []\<rparr>, \<lparr>opt_text = lit ''Y'', opt_images = []\<rparr>] \<and>
   create_docx example_env [gap_entry] None =
     Inr [Paragraph (lit ''[Q] ''), Paragraph (lit ''(a) W''), Paragraph (lit ''(b) Y''), Paragraph (lit ''[ANS] ''),
          Paragraph (lit ''[SOL] ''), PageBreak]"
  by code_simp

section \<open>Section grouper: properties\<close>

lemma key_eq_refl: "key_eq a a"
  by (simp add: key_eq_def)

lemma key_eq_sym: "key_eq a b = key_eq b a"
  by (auto simp: key_eq_def)

lemma key_eq_trans: "key_eq a b \<Longrightarrow> key_eq b c \<Longrightarrow> key_eq a c"
  by (simp add: key_eq_def)

lemma first_seen_subset: "set (first_seen ks) \<subseteq> set ks"
  by (induction ks rule: first_seen.induct) auto

lemma first_seen_covers: "x \<in> set ks \<Longrightarrow> \<exists>k \<in> set (first_seen ks). key_eq k x"
proof (induction ks rule: first_seen.induct)
  case 1
  then show ?case by simp
next
  case (2 k ks)
  show ?case
  proof (cases "key_eq x k")
    case True
    then show ?thesis by (auto simp: key_eq_sym)
  next
    case False
    with "2.prems" have "x \<in> set (filter (\<lambda>k'. \<not> key_eq k' k) ks)"
      by (auto simp: key_eq_refl)
    from "2.IH" [OF this] show ?thesis by auto
  qed
qed

lemma first_seen_distinct: "distinct (map nkey (first_seen ks))"
proof (induction ks rule: first_seen.induct)
  case 1
  then show ?case by simp
next
  case (2 k ks)
  have "nkey k \<notin> nkey ` set (first_seen (filter (\<lambda>k'. \<not> key_eq k' k) ks))"
    using first_seen_subset [of "filter (\<lambda>k'. \<not> key_eq k' k) ks"]
    by (auto simp: key_eq_def)
  with 2 show ?case by simp
qed

lemma first_seen_snoc:
  "first_seen (ks @ [k]) =
     (if \<exists>k' \<in> set ks. key_eq k' k then first_seen ks else first_seen ks @ [k])"
proof (induction ks rule: first_seen.induct)
  case 1
  then show ?case by simp
next
  case (2 k0 ks)
  show ?case
  proof (cases "key_eq k k0")
    case True
    then show ?thesis by (auto simp: key_eq_sym)
  next
    case False
    have "(\<exists>k' \<in> set (filter (\<lambda>k'. \<not> key_eq k' k0) ks). key_eq k' k) =
          (\<exists>k' \<in> set (k0 # ks). key_eq k' k)"
      using False by (auto simp: key_eq_def)
    with False "2.IH" show ?thesis by simp
  qed
qed

lemma members_snoc:
  "members k (ps @ [e]) = members k ps @ (if key_eq (entry_sid e) k then [e] else [])"
  by (simp add: members_def)

lemma members_nonempty:
  assumes "k \<in> set (map entry_sid ps)"
  shows "members k ps \<noteq> []"
proof -
  from assms obtain e' where "e' \<in> set ps" "entry_sid e' = k" by auto
  then have "e' \<in> set (members k ps)" by (simp add: members_def key_eq_refl)
  then show ?thesis by auto
qed

lemma members_empty: "\<not> (\<exists>e' \<in> set ps. key_eq (entry_sid e') k) \<Longrightarrow> members k ps = []"
  by (auto simp: members_def filter_empty_conv)

lemma has_key_groups:
  "has_key (groups_of L ps) sid = (\<exists>e' \<in> set ps. key_eq (entry_sid e') sid)"
proof
  assume "has_key (groups_of L ps) sid"
  then obtain k where k: "k \<in> set (first_seen (map entry_sid ps))" and eq: "key_eq k sid"
    by (auto simp: has_key_def groups_of_def group_of_def list_ex_iff)
  from k first_seen_subset [of "map entry_sid ps"] have "k \<in> set (map entry_sid ps)" by blast
  with eq show "\<exists>e' \<in> set ps. key_eq (entry_sid e') sid" by auto
next
  assume "\<exists>e' \<in> set ps. key_eq (entry_sid e') sid"
  then obtain e' where e': "e' \<in> set ps" and eq: "key_eq (entry_sid e') sid" by blast
  from e' have "entry_sid e' \<in> set (map entry_sid ps)" by simp
  from first_seen_covers [OF this] obtain k where
    k: "k \<in> set (first_seen (map entry_sid ps))" and "key_eq k (entry_sid e')" by blast
  with eq have "key_eq k sid" by (blast intro: key_eq_trans)
  with k show "has_key (groups_of L ps) sid"
    by (auto simp: has_key_def groups_of_def group_of_def list_ex_iff)
qed

lemma group_step_seen:
  assumes seen: "\<exists>e' \<in> set ps. key_eq (entry_sid e') (entry_sid e)"
  shows "append_question (groups_of L ps) (entry_sid e) e = groups_of L (ps @ [e])"
proof -
  let ?ks = "first_seen (map entry_sid ps)"
  from seen have ex: "\<exists>k' \<in> set (map entry_sid ps). key_eq k' (entry_sid e)" by auto
  have keys: "first_seen (map entry_sid (ps @ [e])) = ?ks"
    using ex by (simp add: first_seen_snoc)
  have each: "(\<lambda>(k, g). if key_eq k (entry_sid e) then (k, g\<lparr>questions := questions g @ [e]\<rparr>)
                          else (k, g)) (group_of L ps k) = group_of L (ps @ [e]) k"
    if "k \<in> set ?ks" for k
  proof -
    from that first_seen_subset [of "map entry_sid ps"] have "k \<in> set (map entry_sid ps)" by blast
    from members_nonempty [OF this] have ne: "members k ps \<noteq> []" .
    then show ?thesis
      by (auto simp: group_of_def members_snoc key_eq_sym)
  qed
  have "append_question (groups_of L ps) (entry_sid e) e =
          map (\<lambda>k. (\<lambda>(k, g). if key_eq k (entry_sid e) then (k, g\<lparr>questions := questions g @ [e]\<rparr>)
                          else (k, g)) (group_of L ps k)) ?ks"
    by (simp add: append_question_def groups_of_def comp_def)
  also have "\<dots> = map (group_of L (ps @ [e])) ?ks"
    by (rule map_cong [OF refl]) (rule each)
  finally show ?thesis by (simp only: groups_of_def keys)
qed

lemma group_step_new:
  assumes new: "\<not> (\<exists>e' \<in> set ps. key_eq (entry_sid e') (entry_sid e))"
  shows "append_question (groups_of L ps @ [(entry_sid e, \<lparr>name = entry_sname L e, questions = []\<rparr>)])
           (entry_sid e) e = groups_of L (ps @ [e])"
proof -
  let ?ks = "first_seen (map entry_sid ps)"
  from new have nex: "\<not> (\<exists>k' \<in> set (map entry_sid ps). key_eq k' (entry_sid e))" by auto
  have keys: "first_seen (map entry_sid (ps @ [e])) = ?ks @ [entry_sid e]"
    using nex by (simp add: first_seen_snoc)
  have each: "(\<lambda>(k, g). if key_eq k (entry_sid e) then (k, g\<lparr>questions := questions g @ [e]\<rparr>)
                          else (k, g)) (group_of L ps k) = group_of L (ps @ [e]) k"
    if "k \<in> set ?ks" for k
  proof -
    from that first_seen_subset [of "map entry_sid ps"] have "k \<in> set (map entry_sid ps)" by blast
    with nex have "\<not> key_eq k (entry_sid e)" by blast
    then show ?thesis
      by (auto simp: group_of_def members_snoc key_eq_sym)
  qed
  have last: "group_of L (ps @ [e]) (entry_sid e) =
                (entry_sid e, \<lparr>name = entry_sname L e, questions = [e]\<rparr>)"
    using members_empty [OF new] by (simp add: group_of_def members_snoc key_eq_refl)
  have "append_question (groups_of L ps @ [(entry_sid e, \<lparr>name = entry_sname L e, questions = []\<rparr>)])
           (entry_sid e) e =
          map (\<lambda>k. (\<lambda>(k, g). if key_eq k (entry_sid e) then (k, g\<lparr>questions := questions g @ [e]\<rparr>)
                          else (k, g)) (group_of L ps k)) ?ks @
          [(entry_sid e, \<lparr>name = entry_sname L e, questions = [e]\<rparr>)]"
    by (simp add: append_question_def groups_of_def comp_def key_eq_refl)
  also have "map (\<lambda>k. (\<lambda>(k, g). if key_eq k (entry_sid e) then (k, g\<lparr>questions := questions g @ [e]\<rparr>)
                          else (k, g)) (group_of L ps k)) ?ks = map (group_of L (ps @ [e])) ?ks"
    by (rule map_cong [OF refl]) (rule each)
  finally have lhs: "append_question
           (groups_of L ps @ [(entry_sid e, \<lparr>name = entry_sname L e, questions = []\<rparr>)])
           (entry_sid e) e =
         map (group_of L (ps @ [e])) ?ks @
         [(entry_sid e, \<lparr>name = entry_sname L e, questions = [e]\<rparr>)]" .
  have rhs: "groups_of L (ps @ [e]) =
         map (group_of L (ps @ [e])) ?ks @
         [(entry_sid e, \<lparr>name = entry_sname L e, questions = [e]\<rparr>)]"
    by (simp only: groups_of_def keys) (simp only: map_append list.map last)
  from lhs rhs show ?thesis by (simp only:)
qed

lemma group_loop_groups:
  "\<forall>e \<in> set es. hashable (entry_sid e) \<Longrightarrow>
     group_loop L es (groups_of L ps) = Inr (groups_of L (ps @ es))"
proof (induction es arbitrary: ps)
  case Nil
  then show ?case by simp
next
  case (Cons e es)
  from Cons.prems have h: "hashable (entry_sid e)" and rest: "\<forall>e \<in> set es. hashable (entry_sid e)"
    by simp_all
  have step: "append_question
                (if \<not> has_key (groups_of L ps) (entry_sid e)
                 then groups_of L ps @ [(entry_sid e, \<lparr>name = entry_sname L e, questions = []\<rparr>)]
                 else groups_of L ps)
                (entry_sid e) e = groups_of L (ps @ [e])"
    using group_step_seen [of ps e L] group_step_new [of ps e L]
    by (simp add: has_key_groups)
  from Cons.IH [OF rest, of "ps @ [e]"] h step show ?case
    by (simp add: Let_def)
qed

lemma group_loop_unhashable:
  "\<exists>e \<in> set es. \<not> hashable (entry_sid e) \<Longrightarrow>
     group_loop L es sections = Inl (Exn (lit ''TypeError'') (lit ''unhashable type'') None)"
proof (induction es arbitrary: sections)
  case Nil
  then show ?case by simp
next
  case (Cons e es)
  show ?case
  proof (cases "hashable (entry_sid e)")
    case True
    with Cons.prems have "\<exists>e \<in> set es. \<not> hashable (entry_sid e)" by simp
    from Cons.IH [OF this] True show ?thesis by (simp add: Let_def)
  next
    case False
    then show ?thesis by (simp add: Let_def)
  qed
qed

lemma groups_of_Nil: "groups_of L [] = []"
  by (simp add: groups_of_def)

text \<open>
  C9, as amended. On records whose section keys can be hashed, \<^verbatim>\<open>group_by_section\<close>
  returns the groups of the key of each record, which is its \<^verbatim>\<open>section_id\<close> or the empty
  string when that is missing, null or otherwise falsy: the keys in the order first seen,
  no two of them equal as dict keys, each group with the records of its key in their
  order in the input, and with the name of its first record, which is the record's
  \<^verbatim>\<open>section_name\<close> or, when that is missing or empty, \<^verbatim>\<open>str\<close> of the key. When a key
  cannot be hashed (a non-empty list or dict) it raises \<^verbatim>\<open>TypeError\<close>. For records with
  the section ids 1, 2, 1 there are two groups, and the group of 1 holds the first and the
  third record in that order.
\<close>

theorem section_grouping:
  "((\<forall>e \<in> set es. hashable (entry_sid e)) \<longrightarrow>
      group_by_section L es = Inr (groups_of L es) \<and>
      distinct (map nkey (map fst (groups_of L es)))) \<and>
   ((\<exists>e \<in> set es. \<not> hashable (entry_sid e)) \<longrightarrow>
      group_by_section L es = Inl (Exn (lit ''TypeError'') (lit ''unhashable type'') None)) \<and>
   (section_id e0 = JInt 1 \<and> section_id e1 = JInt 2 \<and> section_id e2 = JInt 1 \<longrightarrow>
      group_by_section L [e0, e1, e2] =
        Inr [(JInt 1, \<lparr>name = entry_sname L e0, questions = [e0, e2]\<rparr>),
             (JInt 2, \<lparr>name = entry_sname L e1, questions = [e1]\<rparr>)])"
proof -
  have ok: "group_by_section L es = Inr (groups_of L es)"
    if "\<forall>e \<in> set es. hashable (entry_sid e)" for es
    using group_loop_groups [OF that, of L "[]"]
    by (simp add: group_by_section_def groups_of_Nil)
  have keys: "distinct (map nkey (map fst (groups_of L es)))"
    using first_seen_distinct [of "map entry_sid es"]
    by (simp add: groups_of_def group_of_def comp_def)
  have bad: "group_by_section L es = Inl (Exn (lit ''TypeError'') (lit ''unhashable type'') None)"
    if "\<exists>e \<in> set es. \<not> hashable (entry_sid e)"
    using group_loop_unhashable [OF that] by (simp add: group_by_section_def)
  have three: "group_by_section L [e0, e1, e2] =
        Inr [(JInt 1, \<lparr>name = entry_sname L e0, questions = [e0, e2]\<rparr>),
             (JInt 2, \<lparr>name = entry_sname L e1, questions = [e1]\<rparr>)]"
    if ids: "section_id e0 = JInt 1 \<and> section_id e1 = JInt 2 \<and> section_id e2 = JInt 1"
  proof -
    from ids have sids: "entry_sid e0 = JInt 1" "entry_sid e1 = JInt 2" "entry_sid e2 = JInt 1"
      by (simp_all add: entry_sid_def py_or_def)
    then have "\<forall>e \<in> set [e0, e1, e2]. hashable (entry_sid e)" by simp
    from ok [OF this] sids show ?thesis
      by (simp add: groups_of_def group_of_def members_def key_eq_def)
  qed
  from ok keys bad three show ?thesis by blast
qed

theorem section_grouping_witness:
  "group_by_section example_env
       [sec_entry (JInt 1) (lit ''Q0''), sec_entry (JInt 2) (lit ''Q1''), sec_entry (JInt 1) (lit ''Q2'')] =
     Inr [(JInt 1, \<lparr>name = JStr (lit ''1''),
                    questions = [sec_entry (JInt 1) (lit ''Q0''), sec_entry (JInt 1) (lit ''Q2'')]\<rparr>),
          (JInt 2, \<lparr>name = JStr (lit ''2''), questions = [sec_entry (JInt 2) (lit ''Q1'')]\<rparr>)] \<and>
   groups_of example_env
       [sec_entry (JInt 1) (lit ''Q0''), sec_entry (JInt 2) (lit ''Q1''), sec_entry (JInt 1) (lit ''Q2'')] =
     [(JInt 1, \<lparr>name = JStr (lit ''1''),
                    questions = [sec_entry (JInt 1) (lit ''Q0''), sec_entry (JInt 1) (lit ''Q2'')]\<rparr>),
          (JInt 2, \<lparr>name = JStr (lit ''2''), questions = [sec_entry (JInt 2) (lit ''Q1'')]\<rparr>)]"
proof -
  let ?es = "[sec_entry (JInt 1) (lit ''Q0''), sec_entry (JInt 2) (lit ''Q1''), sec_entry (JInt 1) (lit ''Q2'')]"
  have h: "\<forall>e \<in> set ?es. hashable (entry_sid e)"
    by (simp add: sec_entry_def plain_entry_def entry_sid_def py_or_def)
  have g: "groups_of example_env ?es =
     [(JInt 1, \<lparr>name = JStr (lit ''1''),
                    questions = [sec_entry (JInt 1) (lit ''Q0''), sec_entry (JInt 1) (lit ''Q2'')]\<rparr>),
          (JInt 2, \<lparr>name = JStr (lit ''2''), questions = [sec_entry (JInt 2) (lit ''Q1'')]\<rparr>)]"
    by code_simp
  from section_grouping [of ?es example_env] h
  have "group_by_section example_env ?es = Inr (groups_of example_env ?es)" by blast
  with g show ?thesis by simp
qed

text \<open>
  The claim C9 as first stated has no failure and keys a record by its \<^verbatim>\<open>section_id\<close>
  whenever it has one, naming a nameless group by the identifier itself. A \<^verbatim>\<open>section_id\<close>
  that is a list raises \<^verbatim>\<open>TypeError\<close>; the \<^verbatim>\<open>section_id\<close> 0 is keyed by the empty string;
  and a group of the \<^verbatim>\<open>section_id\<close> 7 without a name is named by the string 7, not the
  number.
\<close>

theorem section_grouping_counterexample:
  "group_by_section example_env [sec_entry (JInt 1) (lit ''Q0''), sec_entry (JList [JInt 1]) (lit ''Q1'')] =
     Inl (Exn (lit ''TypeError'') (lit ''unhashable type'') None) \<and>
   group_by_section example_env [sec_entry (JInt 0) (lit ''Q0'')] =
     Inr [(JStr [], \<lparr>name = JStr [], questions = [sec_entry (JInt 0) (lit ''Q0'')]\<rparr>)] \<and>
   group_by_section example_env [sec_entry (JInt 7) (lit ''Q0'')] =
     Inr [(JInt 7, \<lparr>name = JStr (lit ''7''), questions = [sec_entry (JInt 7) (lit ''Q0'')]\<rparr>)]"
  by code_simp

end
